theory Spec2Isabelle
  imports Complex_Main "HOL-Library.AList" "HOL-Library.Multiset"
begin

section \<open>NetworkedImageTrackingSync: the data model\<close>

text \<open>
  The component \<^verbatim>\<open>NetworkedImageTrackingSync\<close> keeps a registry (a JavaScript
  \<^verbatim>\<open>Map\<close>) from image ids to records of synchronised objects and reacts to
  detection events, network messages and room events. JavaScript numbers that carry
  coordinates are modelled as \<open>real\<close> (rounding is not modelled), timestamps and
  indices as \<open>int\<close>, strings as \<open>string\<close>. The \<^verbatim>\<open>Map\<close> is an association list
  with distinct keys in insertion order: \<^verbatim>\<open>get\<close> is \<open>map_of\<close>, \<^verbatim>\<open>set\<close> is
  \<open>AList.update\<close> (in place for a known key, appended for a new one, as a \<^verbatim>\<open>Map\<close>
  does) and \<^verbatim>\<open>delete\<close> is \<open>AList.delete\<close>.
\<close>

record vector3 =
  vec_x :: real
  vec_y :: real
  vec_z :: real

record quaternion =
  quat_x :: real
  quat_y :: real
  quat_z :: real
  quat_w :: real

text \<open>A \<^verbatim>\<open>Matrix4\<close>: its sixteen \<^verbatim>\<open>elements\<close>, column-major as in three.js.\<close>

datatype matrix4 = Matrix4 real real real real  real real real real
                           real real real real  real real real real

text \<open>
  The wire messages. \<^verbatim>\<open>TrackedImageDespawnMessage\<close> has the three fields every message
  carries; the transform, spawn and ownership messages extend it.
\<close>

record despawnMessage =
  senderId :: string
  imageId :: string
  timestamp :: int

record transformMessage = despawnMessage +
  relativePosition :: vector3
  relativeRotation :: quaternion

record spawnMessage = transformMessage +
  assetIndex :: int

datatype ownershipAction = Request | Release

record ownershipMessage = despawnMessage +
  action :: ownershipAction

text \<open>The state response is typed \<^verbatim>\<open>any\<close> in the source; these are the fields it reads.
  \<open>sr_targetId = None\<close> is an absent \<^verbatim>\<open>targetId\<close>.\<close>

record stateResponse =
  sr_targetId :: "string option"
  sr_imageId :: string
  sr_assetIndex :: int
  sr_ownerId :: string
  sr_relativePosition :: vector3
  sr_relativeRotation :: quaternion
  sr_timestamp :: int

text \<open>
  The host-scene object of an entity (\<^verbatim>\<open>Object3D\<close>). \<open>handle\<close> is its identity: every
  \<^verbatim>\<open>GameObject.instantiate\<close> yields a fresh one. Its parent is the sandbox root (a node
  of the scene), the scene itself, or nothing. Its local matrix, which
  \<^verbatim>\<open>updateMatrix\<close> recomputes from position and quaternion, is not kept.
\<close>

datatype parentRef = Detached | SceneRoot | Node nat

record object3D =
  handle :: nat
  position :: vector3
  quaternion :: quaternion
  parent :: parentRef

text \<open>The sandbox root (the anchor frame) as the component reads it: its identity, its
  \<^verbatim>\<open>matrixWorld\<close> after \<^verbatim>\<open>updateWorldMatrix\<close>, and what \<^verbatim>\<open>getWorldQuaternion\<close> yields.\<close>

record anchor =
  nodeId :: nat
  matrixWorld :: matrix4
  worldQuaternion :: quaternion

text \<open>\<^verbatim>\<open>SyncedTrackedObject\<close>. The record's \<^verbatim>\<open>assetIndex\<close> is \<open>storedAssetIndex\<close> here
  (the messages' field has the name already).\<close>

record syncedTrackedObject =
  object :: object3D
  ownerId :: string
  storedAssetIndex :: int
  lastUpdate :: int
  isLocallyTracked :: bool

text \<open>An entry of \<^verbatim>\<open>imageTracking.trackedImages\<close>: the model's identity (what
  \<^verbatim>\<open>indexOf\<close> compares) and its asset reference \<^verbatim>\<open>object\<close>, if it has one.\<close>

record trackedImageModel =
  modelRef :: nat
  assetObject :: "nat option"

text \<open>A detected image of a tracking event: its model, and what \<^verbatim>\<open>getPosition\<close> and
  \<^verbatim>\<open>getQuaternion\<close> write.\<close>

record trackedImage =
  model :: nat
  worldPosition :: vector3
  worldRotation :: quaternion

subsection \<open>Calls to the collaborators\<close>

datatype topic =
    MSG_TRACKED_IMAGE_SPAWN
  | MSG_TRACKED_IMAGE_TRANSFORM
  | MSG_TRACKED_IMAGE_DESPAWN
  | MSG_TRACKED_IMAGE_OWNERSHIP
  | MSG_TRACKED_IMAGE_STATE_REQUEST
  | MSG_TRACKED_IMAGE_STATE_RESPONSE
  | JoinedRoom
  | UserLeftRoom

datatype payload =
    Spawn spawnMessage
  | Transform transformMessage
  | Despawn despawnMessage
  | Ownership ownershipMessage
  | StateRequest string
  | StateResponse stateResponse

text \<open>
  What the component asks of the transport and the scene host, in the order it asks:
  \<^verbatim>\<open>connection.send\<close>, \<^verbatim>\<open>beginListen\<close>, \<^verbatim>\<open>stopListen\<close>, the image-tracking
  listener, \<^verbatim>\<open>GameObject.instantiate\<close> when it yields an instance (the new handle
  and the id seed of its \<^verbatim>\<open>InstantiateIdProvider\<close>), \<^verbatim>\<open>removeFromParent\<close>,
  \<^verbatim>\<open>GameObject.destroy\<close> and \<^verbatim>\<open>GameObject.setActive\<close>. Console output is not
  recorded (\<^verbatim>\<open>debug\<close> is false, and warnings change nothing).
\<close>

datatype effect =
    Send topic payload
  | BeginListen topic
  | StopListen topic
  | AddEventListener
  | RemoveEventListener
  | Instantiate nat string
  | RemoveFromParent nat
  | Destroy nat
  | SetActive nat bool

subsection \<open>The three.js operations\<close>

text \<open>
  The component computes poses with operations of three.js, which is not part of the
  repository. They are a parameter of the model: \<open>lerp E p v alpha\<close> is
  \<^verbatim>\<open>p.lerp(v, alpha)\<close>, \<open>slerp E q qb t\<close> is \<^verbatim>\<open>q.slerp(qb, t)\<close>,
  \<open>applyMatrix4 E v m\<close> is \<^verbatim>\<open>v.applyMatrix4(m)\<close>, \<open>invert E m\<close> is \<^verbatim>\<open>m.invert()\<close>,
  \<open>premultiply E q p\<close> is \<^verbatim>\<open>q.premultiply(p)\<close>, \<open>quatInvert E q\<close> is \<^verbatim>\<open>q.invert()\<close>;
  \<open>getWorldPosition\<close> and \<open>getWorldQuaternion\<close> read the world pose of a scene object,
  which depends on where the sandbox root currently is.
\<close>

record engine =
  lerp :: "vector3 \<Rightarrow> vector3 \<Rightarrow> real \<Rightarrow> vector3"
  slerp :: "quaternion \<Rightarrow> quaternion \<Rightarrow> real \<Rightarrow> quaternion"
  applyMatrix4 :: "vector3 \<Rightarrow> matrix4 \<Rightarrow> vector3"
  invert :: "matrix4 \<Rightarrow> matrix4"
  premultiply :: "quaternion \<Rightarrow> quaternion \<Rightarrow> quaternion"
  quatInvert :: "quaternion \<Rightarrow> quaternion"
  getWorldPosition :: "anchor option \<Rightarrow> object3D \<Rightarrow> vector3"
  getWorldQuaternion :: "anchor option \<Rightarrow> object3D \<Rightarrow> quaternion"

subsection \<open>The component\<close>

text \<open>
  The serialized properties and private state of the class, then what it reads from its
  collaborators: \<^verbatim>\<open>context.connection.connectionId\<close> and \<^verbatim>\<open>isInRoom\<close>,
  \<^verbatim>\<open>WebARSessionRoot.hasPlaced\<close>, and the clock (\<open>dateNow c n\<close> is what the \<open>n\<close>-th call
  of \<^verbatim>\<open>Date.now()\<close> returns; \<open>clockReads\<close> counts the calls made). \<open>imageTracking\<close> is
  the \<^verbatim>\<open>trackedImages\<close> array of the assigned component, \<open>None\<close> when none is assigned.
  \<open>pendingLoads\<close> are the calls of \<^verbatim>\<open>createTrackedObject\<close> suspended at
  \<^verbatim>\<open>await loadAssetAsync()\<close>, each with the message it was called with; \<open>calls\<close> is
  the trace of calls to the collaborators. The scratch fields (\<^verbatim>\<open>tempVec3\<close>,
  \<^verbatim>\<open>tempQuat\<close>, \<^verbatim>\<open>tempQuat2\<close>, \<^verbatim>\<open>sandboxInverseMatrix\<close>) are written before every
  use and carry nothing between calls, so they are local values here.
\<close>

record component =
  imageTracking :: "trackedImageModel list option"
  sandboxRoot :: "anchor option"
  updateInterval :: int
  interpolationFactor :: real
  syncedObjects :: "(string \<times> syncedTrackedObject) list"
  lastUpdateTime :: int
  connectionId :: "string option"
  isInRoom :: bool
  hasPlaced :: bool
  dateNow :: "nat \<Rightarrow> int"
  clockReads :: nat
  pendingLoads :: "(nat \<times> spawnMessage) list"
  nextLoad :: nat
  nextHandle :: nat
  calls :: "effect list"

section \<open>Utility\<close>

definition canSync :: "component \<Rightarrow> bool" where
  "canSync c =
     (if \<not> isInRoom c then False
      else if sandboxRoot c = None then False
      else if \<not> hasPlaced c then False
      else True)"

definition getLocalId :: "component \<Rightarrow> string" where
  "getLocalId c = (case connectionId c of None \<Rightarrow> '''' | Some i \<Rightarrow> i)"

text \<open>\<^verbatim>\<open>Array.prototype.indexOf\<close>: the first index holding the value, \<open>-1\<close> when there is
  none.\<close>

fun indexOfFrom :: "'a list \<Rightarrow> 'a \<Rightarrow> int \<Rightarrow> int" where
  "indexOfFrom [] x i = -1"
| "indexOfFrom (y # ys) x i = (if y = x then i else indexOfFrom ys x (i + 1))"

definition indexOf :: "'a list \<Rightarrow> 'a \<Rightarrow> int" where
  "indexOf xs x = indexOfFrom xs x 0"

text \<open>An array read \<^verbatim>\<open>xs[i]\<close>: \<^verbatim>\<open>undefined\<close> (here \<open>None\<close>) outside the array.\<close>

definition arrayGet :: "'a list \<Rightarrow> int \<Rightarrow> 'a option" where
  "arrayGet xs i = (if 0 \<le> i \<and> i < int (length xs) then Some (xs ! nat i) else None)"

text \<open>How a template literal prints an integer.\<close>

definition digitChar :: "nat \<Rightarrow> char" where
  "digitChar d =
     (if d = 0 then CHR ''0'' else if d = 1 then CHR ''1'' else if d = 2 then CHR ''2''
      else if d = 3 then CHR ''3'' else if d = 4 then CHR ''4'' else if d = 5 then CHR ''5''
      else if d = 6 then CHR ''6'' else if d = 7 then CHR ''7'' else if d = 8 then CHR ''8''
      else CHR ''9'')"

fun digits :: "nat \<Rightarrow> string" where
  "digits n = (if n < 10 then [digitChar n] else digits (n div 10) @ [digitChar (n mod 10)])"

definition numberToString :: "int \<Rightarrow> string" where
  "numberToString i = (if i < 0 then CHR ''-'' # digits (nat (- i)) else digits (nat i))"

definition getAssetIndex :: "component \<Rightarrow> trackedImage \<Rightarrow> int" where
  "getAssetIndex c img =
     (case imageTracking c of
        None \<Rightarrow> -1
      | Some trackedImages \<Rightarrow> indexOf (map modelRef trackedImages) (model img))"

definition getImageId :: "component \<Rightarrow> trackedImage \<Rightarrow> string" where
  "getImageId c img =
     ''tracked_image_'' @ numberToString
       (case imageTracking c of
          None \<Rightarrow> -1
        | Some trackedImages \<Rightarrow> indexOf (map modelRef trackedImages) (model img))"

text \<open>\<^verbatim>\<open>Date.now()\<close>: the next reading of the clock.\<close>

definition readClock :: "component \<Rightarrow> int \<times> component" where
  "readClock c = (dateNow c (clockReads c), c\<lparr>clockReads := Suc (clockReads c)\<rparr>)"

section \<open>Coordinate transform\<close>

definition calculateRelativeTransform ::
  "engine \<Rightarrow> component \<Rightarrow> trackedImage \<Rightarrow> (vector3 \<times> quaternion) option" where
  "calculateRelativeTransform E c img =
     (case sandboxRoot c of
        None \<Rightarrow> None
      | Some anc \<Rightarrow>
          let sandboxInverseMatrix = invert E (matrixWorld anc);
              relativePos = applyMatrix4 E (worldPosition img) sandboxInverseMatrix;
              relativeRot = premultiply E (worldRotation img)
                              (quatInvert E (worldQuaternion anc))
          in Some (relativePos, relativeRot))"

definition calculateRelativeTransformFromObject ::
  "engine \<Rightarrow> component \<Rightarrow> object3D \<Rightarrow> (vector3 \<times> quaternion) option" where
  "calculateRelativeTransformFromObject E c obj =
     (case sandboxRoot c of
        None \<Rightarrow> None
      | Some anc \<Rightarrow>
          let worldPos = getWorldPosition E (sandboxRoot c) obj;
              worldRot = getWorldQuaternion E (sandboxRoot c) obj;
              sandboxInverseMatrix = invert E (matrixWorld anc);
              relativePos = applyMatrix4 E worldPos sandboxInverseMatrix;
              relativeRot = premultiply E worldRot (quatInvert E (worldQuaternion anc))
          in Some (relativePos, relativeRot))"

text \<open>\<^verbatim>\<open>applyRelativeTransform\<close> moves the object a fraction \<open>interpolationFactor\<close> of
  the way to the target: the relative pose itself when the object hangs under the sandbox
  root, the pose mapped through the root's world transform otherwise. Without a sandbox
  root it returns at once.\<close>

definition applyRelativeTransform ::
  "engine \<Rightarrow> component \<Rightarrow> object3D \<Rightarrow> vector3 \<Rightarrow> quaternion \<Rightarrow> object3D" where
  "applyRelativeTransform E c obj relativePos relativeRot =
     (case sandboxRoot c of
        None \<Rightarrow> obj
      | Some anc \<Rightarrow>
          if parent obj = Node (nodeId anc)
          then obj\<lparr>position := lerp E (position obj) relativePos (interpolationFactor c),
                   quaternion := slerp E (quaternion obj) relativeRot (interpolationFactor c)\<rparr>
          else
            let worldPos = applyMatrix4 E relativePos (matrixWorld anc);
                worldRot = premultiply E relativeRot (worldQuaternion anc)
            in obj\<lparr>position := lerp E (position obj) worldPos (interpolationFactor c),
                    quaternion := slerp E (quaternion obj) worldRot (interpolationFactor c)\<rparr>)"

section \<open>Object management\<close>

text \<open>
  \<^verbatim>\<open>createTrackedObject\<close> is asynchronous. Up to its \<^verbatim>\<open>await\<close> it runs inside the
  handler that called it: it gives up when no image tracking is assigned or no asset
  stands at the index, and otherwise starts the load and suspends.
\<close>

definition createTrackedObject :: "component \<Rightarrow> spawnMessage \<Rightarrow> component" where
  "createTrackedObject c message =
     (case imageTracking c of
        None \<Rightarrow> c
      | Some trackedImages \<Rightarrow>
          (case arrayGet trackedImages (assetIndex message) of
             None \<Rightarrow> c
           | Some trackedImageModel \<Rightarrow>
               (case assetObject trackedImageModel of
                  None \<Rightarrow> c
                | Some asset \<Rightarrow>
                    c\<lparr>pendingLoads := pendingLoads c @ [(nextLoad c, message)],
                      nextLoad := Suc (nextLoad c)\<rparr>)))"

text \<open>
  What the load and the instantiation come to, decided by the scene host: the load
  throws, it yields no asset, \<^verbatim>\<open>GameObject.instantiate\<close> yields no instance, or it
  yields an instance (with the pose the clone starts from).
\<close>

datatype loadOutcome =
    LoadRejected
  | AssetNull
  | InstanceNull
  | Instance vector3 quaternion

text \<open>The rest of \<^verbatim>\<open>createTrackedObject\<close>, run when the load of the suspended call
  \<open>loadId\<close> settles. It reads the component as it is then.\<close>

definition createTrackedObjectResume ::
  "engine \<Rightarrow> component \<Rightarrow> nat \<Rightarrow> loadOutcome \<Rightarrow> component" where
  "createTrackedObjectResume E c loadId outcome =
     (case map_of (pendingLoads c) loadId of
        None \<Rightarrow> c
      | Some message \<Rightarrow>
          let c1 = c\<lparr>pendingLoads := AList.delete loadId (pendingLoads c)\<rparr> in
          (case outcome of
             LoadRejected \<Rightarrow> c1
           | AssetNull \<Rightarrow> c1
           | InstanceNull \<Rightarrow> c1
           | Instance p q \<Rightarrow>
               let created = \<lparr>handle = nextHandle c1, position = p, quaternion = q,
                                parent = (case sandboxRoot c1 of
                                            Some anc \<Rightarrow> Node (nodeId anc)
                                          | None \<Rightarrow> SceneRoot)\<rparr>;
                   instance = applyRelativeTransform E c1 created
                                (relativePosition message) (relativeRotation message)
               in c1\<lparr>syncedObjects :=
                        AList.update (imageId message)
                          \<lparr>object = instance,
                           ownerId = senderId message,
                           storedAssetIndex = assetIndex message,
                           lastUpdate = timestamp message,
                           isLocallyTracked = (senderId message = getLocalId c1)\<rparr>
                          (syncedObjects c1),
                      nextHandle := Suc (nextHandle c1),
                      calls := calls c1 @ [Instantiate (nextHandle c1) (imageId message),
                                           SetActive (nextHandle c1) True]\<rparr>))"

definition removeTrackedObject :: "component \<Rightarrow> string \<Rightarrow> component" where
  "removeTrackedObject c imageId' =
     (case map_of (syncedObjects c) imageId' of
        None \<Rightarrow> c
      | Some data \<Rightarrow>
          c\<lparr>calls := calls c @ [RemoveFromParent (handle (object data)),
                                 Destroy (handle (object data))],
            syncedObjects := AList.delete imageId' (syncedObjects c)\<rparr>)"

section \<open>Network receivers\<close>

definition onReceiveSpawn :: "component \<Rightarrow> spawnMessage \<Rightarrow> component" where
  "onReceiveSpawn c message =
     (case map_of (syncedObjects c) (imageId message) of
        Some existingData \<Rightarrow>
          if timestamp message < lastUpdate existingData
          then c\<lparr>syncedObjects :=
                   AList.update (imageId message)
                     (existingData\<lparr>ownerId := senderId message,
                                   isLocallyTracked := (senderId message = getLocalId c)\<rparr>)
                     (syncedObjects c)\<rparr>
          else c
      | None \<Rightarrow> createTrackedObject c message)"

definition onReceiveTransform :: "engine \<Rightarrow> component \<Rightarrow> transformMessage \<Rightarrow> component" where
  "onReceiveTransform E c message =
     (case map_of (syncedObjects c) (imageId message) of
        None \<Rightarrow> c
      | Some data \<Rightarrow>
          if senderId message \<noteq> ownerId data then c
          else if senderId message = getLocalId c \<and> isLocallyTracked data then c
          else if timestamp message < lastUpdate data then c
          else c\<lparr>syncedObjects :=
                   AList.update (imageId message)
                     (data\<lparr>object := applyRelativeTransform E c (object data)
                                        (relativePosition message) (relativeRotation message),
                           lastUpdate := timestamp message\<rparr>)
                     (syncedObjects c)\<rparr>)"

definition onReceiveDespawn :: "component \<Rightarrow> despawnMessage \<Rightarrow> component" where
  "onReceiveDespawn c message =
     (case map_of (syncedObjects c) (imageId message) of
        None \<Rightarrow> c
      | Some data \<Rightarrow>
          if senderId message \<noteq> ownerId data then c
          else removeTrackedObject c (imageId message))"

definition onReceiveOwnership :: "component \<Rightarrow> ownershipMessage \<Rightarrow> component" where
  "onReceiveOwnership c message =
     (case map_of (syncedObjects c) (imageId message) of
        None \<Rightarrow> c
      | Some data \<Rightarrow>
          (case action message of
             Request \<Rightarrow>
               if \<not> isLocallyTracked data \<or> ownerId data \<noteq> getLocalId c
               then c\<lparr>syncedObjects :=
                        AList.update (imageId message)
                          (data\<lparr>ownerId := senderId message,
                                isLocallyTracked := (senderId message = getLocalId c)\<rparr>)
                          (syncedObjects c)\<rparr>
               else c
           | Release \<Rightarrow>
               if ownerId data = senderId message
               then c\<lparr>syncedObjects :=
                        AList.update (imageId message) (data\<lparr>ownerId := ''''\<rparr>)
                          (syncedObjects c)\<rparr>
               else c))"

definition onReceiveStateRequest :: "engine \<Rightarrow> component \<Rightarrow> string \<Rightarrow> component" where
  "onReceiveStateRequest E c requester =
     (if requester = getLocalId c then c
      else
        foldl (\<lambda>c (imageId', data).
                 if isLocallyTracked data
                 then (case calculateRelativeTransformFromObject E c (object data) of
                         None \<Rightarrow> c
                       | Some transform \<Rightarrow>
                           let (now, c1) = readClock c in
                           c1\<lparr>calls := calls c1 @
                                 [Send MSG_TRACKED_IMAGE_STATE_RESPONSE
                                    (StateResponse
                                       \<lparr>sr_targetId = Some requester,
                                        sr_imageId = imageId',
                                        sr_assetIndex = storedAssetIndex data,
                                        sr_ownerId = ownerId data,
                                        sr_relativePosition = fst transform,
                                        sr_relativeRotation = snd transform,
                                        sr_timestamp = now\<rparr>)]\<rparr>)
                 else c)
          c (syncedObjects c))"

text \<open>A \<^verbatim>\<open>targetId\<close> that is absent or empty is falsy, so the message is read.\<close>

definition onReceiveStateResponse :: "component \<Rightarrow> stateResponse \<Rightarrow> component" where
  "onReceiveStateResponse c message =
     (if (case sr_targetId message of
            None \<Rightarrow> False
          | Some target \<Rightarrow> target \<noteq> [] \<and> target \<noteq> getLocalId c)
      then c
      else if map_of (syncedObjects c) (sr_imageId message) = None
      then createTrackedObject c
             \<lparr>senderId = sr_ownerId message,
              imageId = sr_imageId message,
              timestamp = sr_timestamp message,
              relativePosition = sr_relativePosition message,
              relativeRotation = sr_relativeRotation message,
              assetIndex = sr_assetIndex message\<rparr>
      else c)"

definition onUserJoined :: "component \<Rightarrow> string \<Rightarrow> component" where
  "onUserJoined c userId =
     (if userId = getLocalId c
      then c\<lparr>calls := calls c @
                [Send MSG_TRACKED_IMAGE_STATE_REQUEST (StateRequest (getLocalId c))]\<rparr>
      else c)"

text \<open>
  The loops over the registry run over the entries as they stand when the loop starts.
  A \<^verbatim>\<open>Map\<close> may be changed while it is iterated, and every loop of the source changes
  at most the entry it is visiting, so each entry is visited once with its own data.
\<close>

definition onUserLeft :: "component \<Rightarrow> string \<Rightarrow> component" where
  "onUserLeft c userId =
     foldl (\<lambda>c (imageId', objData).
              if ownerId objData = userId then removeTrackedObject c imageId' else c)
       c (syncedObjects c)"

section \<open>Network senders\<close>

definition sendSpawnMessage ::
  "component \<Rightarrow> string \<Rightarrow> int \<Rightarrow> vector3 \<times> quaternion \<Rightarrow> component" where
  "sendSpawnMessage c imageId' assetIndex' transform =
     (let (now, c1) = readClock c in
      c1\<lparr>calls := calls c1 @
            [Send MSG_TRACKED_IMAGE_SPAWN
               (Spawn \<lparr>senderId = getLocalId c,
                       imageId = imageId',
                       timestamp = now,
                       relativePosition = fst transform,
                       relativeRotation = snd transform,
                       assetIndex = assetIndex'\<rparr>)]\<rparr>)"

definition sendTransformMessage ::
  "component \<Rightarrow> string \<Rightarrow> vector3 \<times> quaternion \<Rightarrow> component" where
  "sendTransformMessage c imageId' transform =
     (let (now, c1) = readClock c in
      c1\<lparr>calls := calls c1 @
            [Send MSG_TRACKED_IMAGE_TRANSFORM
               (Transform \<lparr>senderId = getLocalId c,
                           imageId = imageId',
                           timestamp = now,
                           relativePosition = fst transform,
                           relativeRotation = snd transform\<rparr>)]\<rparr>)"

definition sendDespawnMessage :: "component \<Rightarrow> string \<Rightarrow> component" where
  "sendDespawnMessage c imageId' =
     (let (now, c1) = readClock c in
      c1\<lparr>calls := calls c1 @
            [Send MSG_TRACKED_IMAGE_DESPAWN
               (Despawn \<lparr>senderId = getLocalId c, imageId = imageId', timestamp = now\<rparr>)]\<rparr>)"

definition requestOwnership :: "component \<Rightarrow> string \<Rightarrow> component" where
  "requestOwnership c imageId' =
     (let (now, c1) = readClock c in
      c1\<lparr>calls := calls c1 @
            [Send MSG_TRACKED_IMAGE_OWNERSHIP
               (Ownership \<lparr>senderId = getLocalId c, imageId = imageId', timestamp = now,
                           action = Request\<rparr>)]\<rparr>)"

definition releaseOwnership :: "component \<Rightarrow> string \<Rightarrow> component" where
  "releaseOwnership c imageId' =
     (let (now, c1) = readClock c in
      c1\<lparr>calls := calls c1 @
            [Send MSG_TRACKED_IMAGE_OWNERSHIP
               (Ownership \<lparr>senderId = getLocalId c, imageId = imageId', timestamp = now,
                           action = Release\<rparr>)]\<rparr>)"

section \<open>Image tracking handler\<close>

definition checkForLostTracking :: "component \<Rightarrow> trackedImage list \<Rightarrow> component" where
  "checkForLostTracking c currentImages =
     (let currentIds = map (getImageId c) currentImages in
      foldl (\<lambda>c (imageId', data).
               if isLocallyTracked data \<and> imageId' \<notin> set currentIds
               then removeTrackedObject
                      (sendDespawnMessage (releaseOwnership c imageId') imageId') imageId'
               else c)
        c (syncedObjects c))"

text \<open>The body of the loop over the detected images.\<close>

definition trackImage :: "engine \<Rightarrow> bool \<Rightarrow> component \<Rightarrow> trackedImage \<Rightarrow> component" where
  "trackImage E shouldSendUpdate c img =
     (let imageId' = getImageId c img;
          assetIndex' = getAssetIndex c img
      in case calculateRelativeTransform E c img of
           None \<Rightarrow> c
         | Some relativeTransform \<Rightarrow>
             (case map_of (syncedObjects c) imageId' of
                None \<Rightarrow> sendSpawnMessage c imageId' assetIndex' relativeTransform
              | Some existingData \<Rightarrow>
                  if isLocallyTracked existingData \<and> shouldSendUpdate
                  then sendTransformMessage c imageId' relativeTransform
                  else if \<not> isLocallyTracked existingData
                          \<and> ownerId existingData \<noteq> getLocalId c
                  then requestOwnership c imageId'
                  else c))"

text \<open>\<open>detail\<close> is \<^verbatim>\<open>event.detail\<close>: \<open>None\<close> when it is missing.\<close>

definition onImageTrackingUpdate ::
  "engine \<Rightarrow> component \<Rightarrow> trackedImage list option \<Rightarrow> component" where
  "onImageTrackingUpdate E c detail =
     (if \<not> canSync c then c
      else case detail of
             None \<Rightarrow> c
           | Some images \<Rightarrow>
               if images = [] then c
               else
                 let (now, c1) = readClock c;
                     shouldSendUpdate = (now - lastUpdateTime c1 \<ge> updateInterval c1);
                     c2 = foldl (trackImage E shouldSendUpdate) c1 images;
                     c3 = (if shouldSendUpdate then c2\<lparr>lastUpdateTime := now\<rparr> else c2)
                 in checkForLostTracking c3 images)"

section \<open>Lifecycle\<close>

definition networkTopics :: "topic list" where
  "networkTopics =
     [MSG_TRACKED_IMAGE_SPAWN, MSG_TRACKED_IMAGE_TRANSFORM, MSG_TRACKED_IMAGE_DESPAWN,
      MSG_TRACKED_IMAGE_OWNERSHIP, MSG_TRACKED_IMAGE_STATE_REQUEST,
      MSG_TRACKED_IMAGE_STATE_RESPONSE, JoinedRoom, UserLeftRoom]"

definition awake :: "component \<Rightarrow> component" where
  "awake c = c\<lparr>syncedObjects := []\<rparr>"

definition onEnable :: "component \<Rightarrow> component" where
  "onEnable c =
     c\<lparr>calls := calls c
          @ (if imageTracking c \<noteq> None then [AddEventListener] else [])
          @ map BeginListen networkTopics\<rparr>"

definition despawnAllLocallyTracked :: "component \<Rightarrow> component" where
  "despawnAllLocallyTracked c =
     foldl (\<lambda>c (imageId', data).
              if isLocallyTracked data then sendDespawnMessage c imageId' else c)
       c (syncedObjects c)"

definition onDisable :: "component \<Rightarrow> component" where
  "onDisable c =
     despawnAllLocallyTracked
       (c\<lparr>calls := calls c
             @ (if imageTracking c \<noteq> None then [RemoveEventListener] else [])
             @ map StopListen networkTopics\<rparr>)"

definition onDestroy :: "component \<Rightarrow> component" where
  "onDestroy c =
     (foldl (\<lambda>c (imageId', data).
               c\<lparr>calls := calls c @ [RemoveFromParent (handle (object data)),
                                      Destroy (handle (object data))]\<rparr>)
        c (syncedObjects c))\<lparr>syncedObjects := []\<rparr>"

section \<open>The event loop\<close>

text \<open>
  Handlers run to completion, one at a time. An event is one handler invocation, or the
  settling of a pending asset load, which resumes the suspended
  \<^verbatim>\<open>createTrackedObject\<close>.
\<close>

datatype event =
    ImageTracking "trackedImage list option"
  | ReceiveSpawn spawnMessage
  | ReceiveTransform transformMessage
  | ReceiveDespawn despawnMessage
  | ReceiveOwnership ownershipMessage
  | ReceiveStateRequest string
  | ReceiveStateResponse stateResponse
  | UserJoined string
  | UserLeft string
  | LoadSettled nat loadOutcome

fun step :: "engine \<Rightarrow> component \<Rightarrow> event \<Rightarrow> component" where
  "step E c (ImageTracking detail) = onImageTrackingUpdate E c detail"
| "step E c (ReceiveSpawn message) = onReceiveSpawn c message"
| "step E c (ReceiveTransform message) = onReceiveTransform E c message"
| "step E c (ReceiveDespawn message) = onReceiveDespawn c message"
| "step E c (ReceiveOwnership message) = onReceiveOwnership c message"
| "step E c (ReceiveStateRequest requester) = onReceiveStateRequest E c requester"
| "step E c (ReceiveStateResponse message) = onReceiveStateResponse c message"
| "step E c (UserJoined userId) = onUserJoined c userId"
| "step E c (UserLeft userId) = onUserLeft c userId"
| "step E c (LoadSettled loadId outcome) = createTrackedObjectResume E c loadId outcome"

definition run :: "engine \<Rightarrow> component \<Rightarrow> event list \<Rightarrow> component" where
  "run E c events = foldl (step E) c events"

section \<open>The three.js operations over the reals\<close>

text \<open>
  An instance of the operations, for evaluating the model at concrete inputs: the
  formulas of three.js read over the reals, so without rounding, infinities or NaN.
  \<^verbatim>\<open>Vector3.lerp\<close> adds \<^verbatim>\<open>(v.x - this.x) * alpha\<close> to each coordinate.
\<close>

definition lerpReal :: "vector3 \<Rightarrow> vector3 \<Rightarrow> real \<Rightarrow> vector3" where
  "lerpReal p v alpha =
     \<lparr>vec_x = vec_x p + (vec_x v - vec_x p) * alpha,
      vec_y = vec_y p + (vec_y v - vec_y p) * alpha,
      vec_z = vec_z p + (vec_z v - vec_z p) * alpha\<rparr>"

text \<open>\<^verbatim>\<open>Quaternion.multiplyQuaternions(a, b)\<close>; \<^verbatim>\<open>q.premultiply(p)\<close> is the product
  \<open>p * q\<close>, and \<^verbatim>\<open>q.invert()\<close> is the conjugate (the quaternion is taken to have unit
  length).\<close>

definition multiplyQuaternions :: "quaternion \<Rightarrow> quaternion \<Rightarrow> quaternion" where
  "multiplyQuaternions a b =
     \<lparr>quat_x = quat_x a * quat_w b + quat_w a * quat_x b + quat_y a * quat_z b - quat_z a * quat_y b,
      quat_y = quat_y a * quat_w b + quat_w a * quat_y b + quat_z a * quat_x b - quat_x a * quat_z b,
      quat_z = quat_z a * quat_w b + quat_w a * quat_z b + quat_x a * quat_y b - quat_y a * quat_x b,
      quat_w = quat_w a * quat_w b - quat_x a * quat_x b - quat_y a * quat_y b - quat_z a * quat_z b\<rparr>"

definition premultiplyReal :: "quaternion \<Rightarrow> quaternion \<Rightarrow> quaternion" where
  "premultiplyReal q p = multiplyQuaternions p q"

definition conjugate :: "quaternion \<Rightarrow> quaternion" where
  "conjugate q = \<lparr>quat_x = - quat_x q, quat_y = - quat_y q, quat_z = - quat_z q, quat_w = quat_w q\<rparr>"

definition normalize :: "quaternion \<Rightarrow> quaternion" where
  "normalize q =
     (let l = sqrt (quat_x q * quat_x q + quat_y q * quat_y q + quat_z q * quat_z q
                    + quat_w q * quat_w q)
      in if l = 0 then \<lparr>quat_x = 0, quat_y = 0, quat_z = 0, quat_w = 1\<rparr>
         else \<lparr>quat_x = quat_x q * (1 / l), quat_y = quat_y q * (1 / l),
               quat_z = quat_z q * (1 / l), quat_w = quat_w q * (1 / l)\<rparr>)"

text \<open>
  \<^verbatim>\<open>Quaternion.slerp(qb, t)\<close>: the ends \<open>t = 0\<close> and \<open>t = 1\<close> return the receiver and
  the target as they are; between them the target is negated when the two quaternions
  lie more than a right angle apart, equal directions return the receiver, nearly equal
  ones are blended linearly and normalised, and the rest is the spherical formula. The
  half angle \<^verbatim>\<open>atan2(sinHalfTheta, cosHalfTheta)\<close> is \<open>arccos cosHalfTheta\<close> there
  (\<open>sinHalfTheta\<close> is positive and the two squares sum to one).
\<close>

definition slerpReal :: "quaternion \<Rightarrow> quaternion \<Rightarrow> real \<Rightarrow> quaternion" where
  "slerpReal q qb t =
     (if t = 0 then q
      else if t = 1 then qb
      else
        let dot = quat_w q * quat_w qb + quat_x q * quat_x qb + quat_y q * quat_y qb
                  + quat_z q * quat_z qb;
            target = (if dot < 0
                      then \<lparr>quat_x = - quat_x qb, quat_y = - quat_y qb, quat_z = - quat_z qb,
                            quat_w = - quat_w qb\<rparr>
                      else qb);
            cosHalfTheta = (if dot < 0 then - dot else dot)
        in if cosHalfTheta \<ge> 1 then q
           else
             let sqrSinHalfTheta = 1 - cosHalfTheta * cosHalfTheta in
             if sqrSinHalfTheta \<le> 1 / 2 ^ 52
             then normalize
                    \<lparr>quat_x = (1 - t) * quat_x q + t * quat_x target,
                     quat_y = (1 - t) * quat_y q + t * quat_y target,
                     quat_z = (1 - t) * quat_z q + t * quat_z target,
                     quat_w = (1 - t) * quat_w q + t * quat_w target\<rparr>
             else
               let sinHalfTheta = sqrt sqrSinHalfTheta;
                   halfTheta = arccos cosHalfTheta;
                   ratioA = sin ((1 - t) * halfTheta) / sinHalfTheta;
                   ratioB = sin (t * halfTheta) / sinHalfTheta
               in \<lparr>quat_x = quat_x q * ratioA + quat_x target * ratioB,
                   quat_y = quat_y q * ratioA + quat_y target * ratioB,
                   quat_z = quat_z q * ratioA + quat_z target * ratioB,
                   quat_w = quat_w q * ratioA + quat_w target * ratioB\<rparr>)"

text \<open>\<open>el m i\<close> is \<^verbatim>\<open>m.elements[i]\<close>, and \<open>entry m r c\<close> the entry in row \<open>r\<close> and column
  \<open>c\<close> (both from 0), which the column-major array holds at \<open>4 * c + r\<close>.\<close>

fun el :: "matrix4 \<Rightarrow> nat \<Rightarrow> real" where
  "el (Matrix4 a0 a1 a2 a3 a4 a5 a6 a7 a8 a9 a10 a11 a12 a13 a14 a15) i =
     [a0, a1, a2, a3, a4, a5, a6, a7, a8, a9, a10, a11, a12, a13, a14, a15] ! i"

definition entry :: "matrix4 \<Rightarrow> nat \<Rightarrow> nat \<Rightarrow> real" where
  "entry m r c = el m (4 * c + r)"

text \<open>\<^verbatim>\<open>Vector3.applyMatrix4\<close>: the matrix applied to \<open>(x, y, z, 1)\<close>, then the
  perspective divide.\<close>

definition applyMatrix4Real :: "vector3 \<Rightarrow> matrix4 \<Rightarrow> vector3" where
  "applyMatrix4Real v m =
     (let x = vec_x v; y = vec_y v; z = vec_z v;
          w = 1 / (el m 3 * x + el m 7 * y + el m 11 * z + el m 15)
      in \<lparr>vec_x = (el m 0 * x + el m 4 * y + el m 8 * z + el m 12) * w,
          vec_y = (el m 1 * x + el m 5 * y + el m 9 * z + el m 13) * w,
          vec_z = (el m 2 * x + el m 6 * y + el m 10 * z + el m 14) * w\<rparr>)"

text \<open>
  \<^verbatim>\<open>Matrix4.invert\<close>: the adjugate over the determinant (expanded along the first
  column), and the zero matrix when the determinant is zero. three.js writes the sixteen
  cofactors out term by term; here each is the signed minor.
\<close>

definition others :: "nat \<Rightarrow> nat \<times> nat \<times> nat" where
  "others k = (if k = 0 then (1, 2, 3) else if k = 1 then (0, 2, 3)
               else if k = 2 then (0, 1, 3) else (0, 1, 2))"

definition det3 :: "real \<Rightarrow> real \<Rightarrow> real \<Rightarrow> real \<Rightarrow> real \<Rightarrow> real \<Rightarrow> real \<Rightarrow> real \<Rightarrow> real \<Rightarrow> real" where
  "det3 a b c d e f g h i = a * (e * i - f * h) - b * (d * i - f * g) + c * (d * h - e * g)"

definition cofactor :: "matrix4 \<Rightarrow> nat \<Rightarrow> nat \<Rightarrow> real" where
  "cofactor m r c =
     (case (others r, others c) of
        ((r1, r2, r3), (c1, c2, c3)) \<Rightarrow>
          (if even (r + c) then 1 else -1) *
          det3 (entry m r1 c1) (entry m r1 c2) (entry m r1 c3)
               (entry m r2 c1) (entry m r2 c2) (entry m r2 c3)
               (entry m r3 c1) (entry m r3 c2) (entry m r3 c3))"

definition determinant :: "matrix4 \<Rightarrow> real" where
  "determinant m =
     entry m 0 0 * cofactor m 0 0 + entry m 1 0 * cofactor m 1 0
     + entry m 2 0 * cofactor m 2 0 + entry m 3 0 * cofactor m 3 0"

definition invertReal :: "matrix4 \<Rightarrow> matrix4" where
  "invertReal m =
     (let det = determinant m in
      if det = 0 then Matrix4 0 0 0 0  0 0 0 0  0 0 0 0  0 0 0 0
      else
        let detInv = 1 / det in
        Matrix4
          (cofactor m 0 0 * detInv) (cofactor m 0 1 * detInv)
          (cofactor m 0 2 * detInv) (cofactor m 0 3 * detInv)
          (cofactor m 1 0 * detInv) (cofactor m 1 1 * detInv)
          (cofactor m 1 2 * detInv) (cofactor m 1 3 * detInv)
          (cofactor m 2 0 * detInv) (cofactor m 2 1 * detInv)
          (cofactor m 2 2 * detInv) (cofactor m 2 3 * detInv)
          (cofactor m 3 0 * detInv) (cofactor m 3 1 * detInv)
          (cofactor m 3 2 * detInv) (cofactor m 3 3 * detInv))"

text \<open>The world pose of a scene object: its local pose mapped through the sandbox root
  when it hangs under it, its local pose otherwise (the scene itself is not moved).\<close>

definition getWorldPositionReal :: "anchor option \<Rightarrow> object3D \<Rightarrow> vector3" where
  "getWorldPositionReal sandbox obj =
     (case sandbox of
        None \<Rightarrow> position obj
      | Some anc \<Rightarrow>
          if parent obj = Node (nodeId anc)
          then applyMatrix4Real (position obj) (matrixWorld anc)
          else position obj)"

definition getWorldQuaternionReal :: "anchor option \<Rightarrow> object3D \<Rightarrow> quaternion" where
  "getWorldQuaternionReal sandbox obj =
     (case sandbox of
        None \<Rightarrow> quaternion obj
      | Some anc \<Rightarrow>
          if parent obj = Node (nodeId anc)
          then multiplyQuaternions (worldQuaternion anc) (quaternion obj)
          else quaternion obj)"

definition three :: engine where
  "three =
     \<lparr>lerp = lerpReal, slerp = slerpReal, applyMatrix4 = applyMatrix4Real,
      invert = invertReal, premultiply = premultiplyReal, quatInvert = conjugate,
      getWorldPosition = getWorldPositionReal,
      getWorldQuaternion = getWorldQuaternionReal\<rparr>"

section \<open>Example states\<close>

text \<open>
  A peer with connection id \<open>A\<close>, in a room, with a placed sandbox root at the origin
  and one tracked image model, and an entity of the remote peer \<open>B\<close> as this peer holds
  it. They are the concrete inputs at which the theorems below are evaluated.
\<close>

definition identityMatrix :: matrix4 where
  "identityMatrix = Matrix4 1 0 0 0  0 1 0 0  0 0 1 0  0 0 0 1"

definition identityQuaternion :: quaternion where
  "identityQuaternion = \<lparr>quat_x = 0, quat_y = 0, quat_z = 0, quat_w = 1\<rparr>"

definition vec :: "real \<Rightarrow> real \<Rightarrow> real \<Rightarrow> vector3" where
  "vec a b c = \<lparr>vec_x = a, vec_y = b, vec_z = c\<rparr>"

definition sandbox0 :: anchor where
  "sandbox0 = \<lparr>nodeId = 0, matrixWorld = identityMatrix, worldQuaternion = identityQuaternion\<rparr>"

definition peerA :: component where
  "peerA =
     \<lparr>imageTracking = Some [\<lparr>modelRef = 7, assetObject = Some 0\<rparr>],
      sandboxRoot = Some sandbox0,
      updateInterval = 50,
      interpolationFactor = 1 / 2,
      syncedObjects = [],
      lastUpdateTime = 0,
      connectionId = Some ''A'',
      isInRoom = True,
      hasPlaced = True,
      dateNow = (\<lambda>n. 1000 + int n),
      clockReads = 0,
      pendingLoads = [],
      nextLoad = 0,
      nextHandle = 0,
      calls = []\<rparr>"

definition entityOfB :: syncedTrackedObject where
  "entityOfB =
     \<lparr>object = \<lparr>handle = 0, position = vec 0 0 0, quaternion = identityQuaternion,
                 parent = Node 0\<rparr>,
      ownerId = ''B'', storedAssetIndex = 0, lastUpdate = 100, isLocallyTracked = False\<rparr>"

definition peerA_seesB :: component where
  "peerA_seesB = peerA\<lparr>syncedObjects := [(''tracked_image_0'', entityOfB)], nextHandle := 1\<rparr>"

definition transformOf :: "string \<Rightarrow> int \<Rightarrow> vector3 \<Rightarrow> transformMessage" where
  "transformOf sender t p =
     \<lparr>senderId = sender, imageId = ''tracked_image_0'', timestamp = t,
      relativePosition = p, relativeRotation = identityQuaternion\<rparr>"

definition spawnOf :: "string \<Rightarrow> int \<Rightarrow> vector3 \<Rightarrow> spawnMessage" where
  "spawnOf sender t p =
     \<lparr>senderId = sender, imageId = ''tracked_image_0'', timestamp = t,
      relativePosition = p, relativeRotation = identityQuaternion, assetIndex = 0\<rparr>"

definition despawnOf :: "string \<Rightarrow> int \<Rightarrow> despawnMessage" where
  "despawnOf sender t = \<lparr>senderId = sender, imageId = ''tracked_image_0'', timestamp = t\<rparr>"

definition ownershipOf :: "string \<Rightarrow> int \<Rightarrow> ownershipAction \<Rightarrow> ownershipMessage" where
  "ownershipOf sender t a =
     \<lparr>senderId = sender, imageId = ''tracked_image_0'', timestamp = t, action = a\<rparr>"

text \<open>Two event sequences at the peer \<open>A\<close>: it receives its own Spawn, the load completes,
  and it receives an Ownership release that names itself as sender; and it receives
  the same Spawn twice before either load completes.\<close>

definition selfRelease :: "event list" where
  "selfRelease =
     [ReceiveSpawn (spawnOf ''A'' 10 (vec 0 0 0)),
      LoadSettled 0 (Instance (vec 0 0 0) identityQuaternion),
      ReceiveOwnership (ownershipOf ''A'' 20 Release)]"

definition duplicateSpawn :: "event list" where
  "duplicateSpawn =
     [ReceiveSpawn (spawnOf ''B'' 10 (vec 0 0 0)),
      ReceiveSpawn (spawnOf ''B'' 10 (vec 0 0 0)),
      LoadSettled 0 (Instance (vec 0 0 0) identityQuaternion),
      LoadSettled 1 (Instance (vec 0 0 0) identityQuaternion)]"

text \<open>The peer \<open>A\<close> holding an entity it tracks itself.\<close>

definition entityOfA :: syncedTrackedObject where
  "entityOfA =
     \<lparr>object = \<lparr>handle = 0, position = vec 0 0 0, quaternion = identityQuaternion,
                 parent = Node 0\<rparr>,
      ownerId = ''A'', storedAssetIndex = 0, lastUpdate = 100, isLocallyTracked = True\<rparr>"

definition peerA_owns :: component where
  "peerA_owns = peerA\<lparr>syncedObjects := [(''tracked_image_0'', entityOfA)], nextHandle := 1\<rparr>"

text \<open>The object after smoothing towards the poses of a list of messages, in order.\<close>

definition smoothed :: "engine \<Rightarrow> component \<Rightarrow> object3D \<Rightarrow> transformMessage list \<Rightarrow> object3D" where
  "smoothed E c obj ms =
     foldl (\<lambda>obj m. applyRelativeTransform E c obj (relativePosition m) (relativeRotation m))
       obj ms"

text \<open>The peer \<open>A\<close> with \<open>interpolationFactor\<close> set to 1, and two transforms of the
  remote owner \<open>B\<close>, the second one newer.\<close>

definition peerA_snapsB :: component where
  "peerA_snapsB = peerA_seesB\<lparr>interpolationFactor := 1\<rparr>"

definition firstMove :: transformMessage where
  "firstMove = transformOf ''B'' 101 (vec 8 0 0)"

definition secondMove :: transformMessage where
  "secondMove = transformOf ''B'' 102 (vec 0 8 0)"

section \<open>Invariants of the event loop\<close>

text \<open>
  Two predicates for reasoning about sequences of events; they are statements about a
  component, not part of the program. \<open>handlesBelow\<close>: every registered object was
  instantiated before, so its handle lies below the next handle to be given out.
  \<open>evolves c c'\<close>: from \<open>c\<close> to \<open>c'\<close> the handle counter did not go back, and every record
  of \<open>c'\<close> either holds an object instantiated since \<open>c\<close>, or was registered in \<open>c\<close>
  under the same id with the same object and a timestamp that is not newer.
\<close>

definition handlesBelow :: "component \<Rightarrow> bool" where
  "handlesBelow c \<longleftrightarrow>
     (\<forall>i d. map_of (syncedObjects c) i = Some d \<longrightarrow> handle (object d) < nextHandle c)"

definition evolves :: "component \<Rightarrow> component \<Rightarrow> bool" where
  "evolves c c' \<longleftrightarrow>
     nextHandle c \<le> nextHandle c' \<and>
     (\<forall>i d'. map_of (syncedObjects c') i = Some d' \<longrightarrow>
        (nextHandle c \<le> handle (object d') \<and> handle (object d') < nextHandle c')
        \<or> (\<exists>d. map_of (syncedObjects c) i = Some d \<and> handle (object d) = handle (object d')
                 \<and> lastUpdate d \<le> lastUpdate d'))"

text \<open>The peer \<open>A\<close> learns of an entity of \<open>B\<close> (the Spawn, then the load completing), and
  later receives a stale and a fresh transform for it.\<close>

definition spawnThenLoad :: "event list" where
  "spawnThenLoad =
     [ReceiveSpawn (spawnOf ''B'' 10 (vec 0 0 0)),
      LoadSettled 0 (Instance (vec 0 0 0) identityQuaternion)]"

definition staleThenFresh :: "event list" where
  "staleThenFresh =
     [ReceiveTransform (transformOf ''B'' 5 (vec 8 0 0)),
      ReceiveTransform (transformOf ''B'' 20 (vec 8 0 0))]"

text \<open>\<open>shrinks c c'\<close>: from \<open>c\<close> to \<open>c'\<close> calls were only added, no id became registered,
  and the tracked images, the connection id and the pending loads stayed. Like \<open>evolves\<close>
  it is a statement about two components, used for the detection handler.\<close>

definition shrinks :: "component \<Rightarrow> component \<Rightarrow> bool" where
  "shrinks c c' \<longleftrightarrow>
     (\<exists>xs. calls c' = calls c @ xs)
     \<and> (\<forall>i. map_of (syncedObjects c) i = None \<longrightarrow> map_of (syncedObjects c') i = None)
     \<and> imageTracking c' = imageTracking c
     \<and> connectionId c' = connectionId c
     \<and> pendingLoads c' = pendingLoads c
     \<and> nextLoad c' = nextLoad c"

text \<open>A detection of the tracked image model of the peer \<open>A\<close>.\<close>

definition seenImage :: trackedImage where
  "seenImage = \<lparr>model = 7, worldPosition = vec 1 2 3, worldRotation = identityQuaternion\<rparr>"

text \<open>\<open>ownedWhenTracked\<close>: every locally tracked entity is owned by the local peer (the
  invariant of the data model).\<close>

definition ownedWhenTracked :: "component \<Rightarrow> bool" where
  "ownedWhenTracked c \<longleftrightarrow>
     (\<forall>i d. map_of (syncedObjects c) i = Some d \<longrightarrow> isLocallyTracked d
            \<longrightarrow> ownerId d = getLocalId c)"

text \<open>A state response addressed to the peer \<open>A\<close>; a sandbox root turned half way round
  the vertical axis and moved, with the peer \<open>A\<close> using it and applying poses in full;
  and an object that hangs directly under the scene.\<close>

definition snapshotOfB :: stateResponse where
  "snapshotOfB =
     \<lparr>sr_targetId = Some ''A'', sr_imageId = ''tracked_image_0'', sr_assetIndex = 0,
      sr_ownerId = ''C'', sr_relativePosition = vec 8 0 0,
      sr_relativeRotation = identityQuaternion, sr_timestamp = 500\<rparr>"





text \<open>Two peers announce the same image: the peer \<open>A\<close> receives the Spawn of \<open>B\<close>
  (timestamp 20) and then the Spawn of \<open>C\<close> (timestamp 10) before either load completes,
  and the first load completes; then the second load completes.\<close>

definition racingSpawns :: "event list" where
  "racingSpawns =
     [ReceiveSpawn (spawnOf ''B'' 20 (vec 0 0 0)),
      ReceiveSpawn (spawnOf ''C'' 10 (vec 0 0 0)),
      LoadSettled 0 (Instance (vec 0 0 0) identityQuaternion)]"

definition secondLoad :: "event list" where
  "secondLoad = [LoadSettled 1 (Instance (vec 0 0 0) identityQuaternion)]"

section \<open>Properties\<close>

subsection \<open>The example states, evaluated\<close>

lemma transformOf_sel:
  "senderId (transformOf s t p) = s"
  "imageId (transformOf s t p) = ''tracked_image_0''"
  "timestamp (transformOf s t p) = t"
  "relativePosition (transformOf s t p) = p"
  "relativeRotation (transformOf s t p) = identityQuaternion"
  by (simp_all add: transformOf_def)

lemma entityOfB_sel:
  "ownerId entityOfB = ''B''"
  "lastUpdate entityOfB = 100"
  "isLocallyTracked entityOfB = False"
  "storedAssetIndex entityOfB = 0"
  "handle (object entityOfB) = 0"
  "parent (object entityOfB) = Node 0"
  "position (object entityOfB) = vec 0 0 0"
  "quaternion (object entityOfB) = identityQuaternion"
  by (simp_all add: entityOfB_def)

lemma peerA_seesB_sel:
  "syncedObjects peerA_seesB = [(''tracked_image_0'', entityOfB)]"
  "getLocalId peerA_seesB = ''A''"
  "sandboxRoot peerA_seesB = Some sandbox0"
  "interpolationFactor peerA_seesB = 1 / 2"
  by (simp_all add: peerA_seesB_def peerA_def getLocalId_def)

lemma lerpReal_half: "lerpReal (vec 0 0 0) (vec a b c) (1 / 2) = vec (a / 2) (b / 2) (c / 2)"
  by (simp add: lerpReal_def vec_def)

lemma slerpReal_same: "slerpReal identityQuaternion identityQuaternion t = identityQuaternion"
  by (simp add: slerpReal_def identityQuaternion_def)

lemma applyRelativeTransform_entityOfB:
  "applyRelativeTransform three peerA_seesB (object entityOfB) (vec a b c) identityQuaternion
     = (object entityOfB)\<lparr>position := vec (a / 2) (b / 2) (c / 2)\<rparr>"
  by (simp add: applyRelativeTransform_def peerA_seesB_sel entityOfB_sel sandbox0_def three_def
        lerpReal_half slerpReal_same)

lemma spawnOf_sel:
  "senderId (spawnOf s t p) = s"
  "imageId (spawnOf s t p) = ''tracked_image_0''"
  "timestamp (spawnOf s t p) = t"
  "relativePosition (spawnOf s t p) = p"
  "relativeRotation (spawnOf s t p) = identityQuaternion"
  "assetIndex (spawnOf s t p) = 0"
  by (simp_all add: spawnOf_def)

lemma despawnOf_sel:
  "senderId (despawnOf s t) = s"
  "imageId (despawnOf s t) = ''tracked_image_0''"
  "timestamp (despawnOf s t) = t"
  by (simp_all add: despawnOf_def)

lemma ownershipOf_sel:
  "senderId (ownershipOf s t a) = s"
  "imageId (ownershipOf s t a) = ''tracked_image_0''"
  "timestamp (ownershipOf s t a) = t"
  "action (ownershipOf s t a) = a"
  by (simp_all add: ownershipOf_def)

subsection \<open>Receiving a transform\<close>

text \<open>
  C1. A Transform for a registered entity is applied exactly when its sender is the stored
  owner, the sender is not the local peer while the entity is locally tracked, and its
  timestamp is not older than the stored one: then the object is moved by
  \<open>applyRelativeTransform\<close> and the timestamp stored, and nothing else changes. In every
  other case the component is left as it was.
\<close>

theorem onReceiveTransform_applied_iff:
  assumes "map_of (syncedObjects c) (imageId message) = Some data"
  shows "(senderId message = ownerId data
            \<and> \<not> (senderId message = getLocalId c \<and> isLocallyTracked data)
            \<and> lastUpdate data \<le> timestamp message
          \<longrightarrow> onReceiveTransform E c message =
                c\<lparr>syncedObjects :=
                    AList.update (imageId message)
                      (data\<lparr>object := applyRelativeTransform E c (object data)
                                         (relativePosition message) (relativeRotation message),
                            lastUpdate := timestamp message\<rparr>)
                      (syncedObjects c)\<rparr>)
       \<and> (\<not> (senderId message = ownerId data
               \<and> \<not> (senderId message = getLocalId c \<and> isLocallyTracked data)
               \<and> lastUpdate data \<le> timestamp message)
          \<longrightarrow> onReceiveTransform E c message = c)"
  using assms by (auto simp add: onReceiveTransform_def)

theorem onReceiveTransform_applied_iff_witness:
  "map_of (syncedObjects peerA_seesB) (imageId (transformOf ''B'' 100 (vec 8 0 0))) = Some entityOfB
   \<and> onReceiveTransform three peerA_seesB (transformOf ''B'' 100 (vec 8 0 0)) =
       peerA_seesB\<lparr>syncedObjects :=
         [(''tracked_image_0'',
           entityOfB\<lparr>object := (object entityOfB)\<lparr>position := vec 4 0 0\<rparr>, lastUpdate := 100\<rparr>)]\<rparr>
   \<and> onReceiveTransform three peerA_seesB (transformOf ''B'' 99 (vec 8 0 0)) = peerA_seesB
   \<and> onReceiveTransform three peerA_seesB (transformOf ''C'' 200 (vec 8 0 0)) = peerA_seesB"
  using onReceiveTransform_applied_iff [of peerA_seesB "transformOf ''B'' 100 (vec 8 0 0)" entityOfB three]
        onReceiveTransform_applied_iff [of peerA_seesB "transformOf ''B'' 99 (vec 8 0 0)" entityOfB three]
        onReceiveTransform_applied_iff [of peerA_seesB "transformOf ''C'' 200 (vec 8 0 0)" entityOfB three]
  by (simp add: transformOf_sel entityOfB_sel peerA_seesB_sel applyRelativeTransform_entityOfB)


subsection \<open>Receiving a spawn for a known id\<close>

text \<open>
  C2. A Spawn for a registered id whose timestamp is strictly older than the stored one
  makes the sender the owner, and the entity locally tracked exactly when the sender is
  the local peer; the object, the asset index and the stored timestamp stay. A Spawn for a
  registered id that is not older changes nothing.
\<close>

theorem onReceiveSpawn_known_id:
  assumes "map_of (syncedObjects c) (imageId message) = Some existingData"
  shows "(timestamp message < lastUpdate existingData
          \<longrightarrow> onReceiveSpawn c message =
                c\<lparr>syncedObjects :=
                    AList.update (imageId message)
                      (existingData\<lparr>ownerId := senderId message,
                                    isLocallyTracked := (senderId message = getLocalId c)\<rparr>)
                      (syncedObjects c)\<rparr>
              \<and> (\<exists>d. map_of (syncedObjects (onReceiveSpawn c message)) (imageId message) = Some d
                     \<and> ownerId d = senderId message
                     \<and> isLocallyTracked d = (senderId message = getLocalId c)
                     \<and> object d = object existingData
                     \<and> storedAssetIndex d = storedAssetIndex existingData
                     \<and> lastUpdate d = lastUpdate existingData))
       \<and> (\<not> timestamp message < lastUpdate existingData
          \<longrightarrow> onReceiveSpawn c message = c)"
  using assms by (auto simp add: onReceiveSpawn_def update_conv')

theorem onReceiveSpawn_known_id_witness:
  "map_of (syncedObjects peerA_seesB) (imageId (spawnOf ''A'' 99 (vec 8 0 0))) = Some entityOfB
   \<and> onReceiveSpawn peerA_seesB (spawnOf ''A'' 99 (vec 8 0 0)) =
       peerA_seesB\<lparr>syncedObjects :=
         [(''tracked_image_0'', entityOfB\<lparr>ownerId := ''A'', isLocallyTracked := True\<rparr>)]\<rparr>
   \<and> onReceiveSpawn peerA_seesB (spawnOf ''C'' 99 (vec 8 0 0)) =
       peerA_seesB\<lparr>syncedObjects :=
         [(''tracked_image_0'', entityOfB\<lparr>ownerId := ''C'', isLocallyTracked := False\<rparr>)]\<rparr>
   \<and> onReceiveSpawn peerA_seesB (spawnOf ''C'' 100 (vec 8 0 0)) = peerA_seesB"
  using onReceiveSpawn_known_id [of peerA_seesB "spawnOf ''A'' 99 (vec 8 0 0)" entityOfB]
        onReceiveSpawn_known_id [of peerA_seesB "spawnOf ''C'' 99 (vec 8 0 0)" entityOfB]
        onReceiveSpawn_known_id [of peerA_seesB "spawnOf ''C'' 100 (vec 8 0 0)" entityOfB]
  by (simp add: spawnOf_sel entityOfB_sel peerA_seesB_sel)

subsection \<open>Receiving a despawn\<close>

text \<open>
  C10. A Despawn is acted on without looking at its timestamp. For a registered entity, a
  Despawn from the stored owner removes the host object from its parent, destroys it and
  deletes the record, whatever the timestamp, so also when it is older than the stored
  one; a Despawn from any other sender, or for an id that is not registered, changes
  nothing.
\<close>

theorem onReceiveDespawn_ignores_timestamp:
  "(map_of (syncedObjects c) (imageId message) = None \<longrightarrow> onReceiveDespawn c message = c)
   \<and> (\<forall>data. map_of (syncedObjects c) (imageId message) = Some data \<longrightarrow>
         (senderId message = ownerId data \<longrightarrow>
            onReceiveDespawn c message =
              c\<lparr>calls := calls c @ [RemoveFromParent (handle (object data)),
                                     Destroy (handle (object data))],
                syncedObjects := AList.delete (imageId message) (syncedObjects c)\<rparr>
            \<and> map_of (syncedObjects (onReceiveDespawn c message)) (imageId message) = None)
         \<and> (senderId message \<noteq> ownerId data \<longrightarrow> onReceiveDespawn c message = c))"
  by (auto simp add: onReceiveDespawn_def removeTrackedObject_def delete_conv')

theorem onReceiveDespawn_ignores_timestamp_witness:
  "map_of (syncedObjects peerA_seesB) (imageId (despawnOf ''B'' 1)) = Some entityOfB
   \<and> timestamp (despawnOf ''B'' 1) < lastUpdate entityOfB
   \<and> onReceiveDespawn peerA_seesB (despawnOf ''B'' 1) =
       peerA_seesB\<lparr>calls := [RemoveFromParent 0, Destroy 0], syncedObjects := []\<rparr>
   \<and> onReceiveDespawn peerA_seesB (despawnOf ''C'' 200) = peerA_seesB
   \<and> map_of (syncedObjects peerA) (imageId (despawnOf ''B'' 200)) = None
   \<and> onReceiveDespawn peerA (despawnOf ''B'' 200) = peerA"
  using onReceiveDespawn_ignores_timestamp [of peerA_seesB "despawnOf ''B'' 1"]
        onReceiveDespawn_ignores_timestamp [of peerA_seesB "despawnOf ''C'' 200"]
        onReceiveDespawn_ignores_timestamp [of peerA "despawnOf ''B'' 200"]
  by (simp add: despawnOf_sel entityOfB_sel peerA_seesB_sel)
     (simp add: peerA_seesB_def peerA_def)

lemma peerA_sel:
  "imageTracking peerA = Some [\<lparr>modelRef = 7, assetObject = Some 0\<rparr>]"
  "sandboxRoot peerA = Some sandbox0"
  "interpolationFactor peerA = 1 / 2"
  "syncedObjects peerA = []"
  "getLocalId peerA = ''A''"
  "pendingLoads peerA = []"
  "nextLoad peerA = 0"
  "nextHandle peerA = 0"
  "calls peerA = []"
  by (simp_all add: peerA_def getLocalId_def)

lemma getLocalId_frame [simp]:
  "getLocalId (c\<lparr>syncedObjects := r\<rparr>) = getLocalId c"
  "getLocalId (c\<lparr>pendingLoads := pl\<rparr>) = getLocalId c"
  "getLocalId (c\<lparr>nextLoad := nl\<rparr>) = getLocalId c"
  "getLocalId (c\<lparr>nextHandle := nh\<rparr>) = getLocalId c"
  "getLocalId (c\<lparr>calls := cs\<rparr>) = getLocalId c"
  "getLocalId (c\<lparr>clockReads := cr\<rparr>) = getLocalId c"
  "getLocalId (c\<lparr>lastUpdateTime := lt\<rparr>) = getLocalId c"
  by (simp_all add: getLocalId_def)

lemma lerpReal_origin: "lerpReal (vec 0 0 0) (vec a b d) t = vec (a * t) (b * t) (d * t)"
  by (simp add: lerpReal_def vec_def)

lemma applyRelativeTransform_origin:
  "sandboxRoot c = Some sandbox0 \<Longrightarrow>
   applyRelativeTransform three c
      \<lparr>handle = h, position = vec 0 0 0, quaternion = identityQuaternion, parent = Node 0\<rparr>
      (vec a b d) identityQuaternion
     = \<lparr>handle = h, position = vec (a * interpolationFactor c) (b * interpolationFactor c)
                                  (d * interpolationFactor c),
        quaternion = identityQuaternion, parent = Node 0\<rparr>"
  by (simp add: applyRelativeTransform_def sandbox0_def three_def lerpReal_origin slerpReal_same)

lemma nodeId_sandbox0: "nodeId sandbox0 = 0"
  by (simp add: sandbox0_def)

lemma spawn_peerA:
  "onReceiveSpawn peerA (spawnOf s t p) =
     peerA\<lparr>pendingLoads := [(0, spawnOf s t p)], nextLoad := 1\<rparr>"
  by (simp add: onReceiveSpawn_def createTrackedObject_def arrayGet_def peerA_sel spawnOf_sel)

subsection \<open>Locally tracked entities and their owner\<close>

text \<open>
  C3. The claim is that an entity that is locally tracked is always owned by the local
  peer. Every handler that changes the owner sets \<open>isLocallyTracked\<close> with it, except the
  release branch of \<open>onReceiveOwnership\<close>, which clears the owner and leaves
  \<open>isLocallyTracked\<close> as it is. Here the peer \<open>A\<close> starts with an empty registry,
  receives its own Spawn, the load completes, and it receives a release whose sender is
  \<open>A\<close>: the record is then locally tracked with the empty owner, while the local id is
  still \<open>A\<close>.
\<close>

theorem release_leaves_locally_tracked_unowned:
  "syncedObjects peerA = []
   \<and> getLocalId (run three peerA selfRelease) = ''A''
   \<and> map_of (syncedObjects (run three peerA selfRelease)) ''tracked_image_0'' =
       Some \<lparr>object = \<lparr>handle = 0, position = vec 0 0 0, quaternion = identityQuaternion,
                        parent = Node 0\<rparr>,
             ownerId = '''', storedAssetIndex = 0, lastUpdate = 10, isLocallyTracked = True\<rparr>"
  by (simp add: run_def selfRelease_def spawn_peerA createTrackedObjectResume_def peerA_sel
        spawnOf_sel applyRelativeTransform_origin onReceiveOwnership_def ownershipOf_sel
        Let_def nodeId_sandbox0)

subsection \<open>Two spawns racing one load\<close>

text \<open>
  C6. The claim is that a second Spawn for an id whose load is still pending is not
  instantiated again. The registry is only written when a load completes, so while the
  first load is pending the second Spawn finds no record and starts a load of its own.
  Here both loads complete: the scene host is asked for two instances with the same id
  seed, the second record overwrites the first, and the first instance (handle 0) is
  neither registered nor destroyed.
\<close>

theorem duplicate_spawn_instantiates_twice:
  "calls (run three peerA duplicateSpawn) =
     [Instantiate 0 ''tracked_image_0'', SetActive 0 True,
      Instantiate 1 ''tracked_image_0'', SetActive 1 True]
   \<and> syncedObjects (run three peerA duplicateSpawn) =
       [(''tracked_image_0'',
         \<lparr>object = \<lparr>handle = 1, position = vec 0 0 0, quaternion = identityQuaternion,
                     parent = Node 0\<rparr>,
          ownerId = ''B'', storedAssetIndex = 0, lastUpdate = 10, isLocallyTracked = False\<rparr>)]"
  by (simp add: run_def duplicateSpawn_def spawn_peerA createTrackedObjectResume_def peerA_sel
        spawnOf_sel applyRelativeTransform_origin onReceiveSpawn_def createTrackedObject_def
        arrayGet_def Let_def nodeId_sandbox0)

lemma peerA_owns_sel:
  "syncedObjects peerA_owns = [(''tracked_image_0'', entityOfA)]"
  "getLocalId peerA_owns = ''A''"
  "sandboxRoot peerA_owns = Some sandbox0"
  "interpolationFactor peerA_owns = 1 / 2"
  "imageTracking peerA_owns = Some [\<lparr>modelRef = 7, assetObject = Some 0\<rparr>]"
  "calls peerA_owns = []"
  "clockReads peerA_owns = 0"
  "dateNow peerA_owns = (\<lambda>n. 1000 + int n)"
  by (simp_all add: peerA_owns_def peerA_def getLocalId_def)

lemma entityOfA_sel:
  "ownerId entityOfA = ''A''"
  "lastUpdate entityOfA = 100"
  "isLocallyTracked entityOfA = True"
  "storedAssetIndex entityOfA = 0"
  "handle (object entityOfA) = 0"
  "parent (object entityOfA) = Node 0"
  "position (object entityOfA) = vec 0 0 0"
  "quaternion (object entityOfA) = identityQuaternion"
  by (simp_all add: entityOfA_def)

subsection \<open>Disable and destroy\<close>

lemma sendDespawnMessage_eq:
  "sendDespawnMessage c i =
     c\<lparr>clockReads := Suc (clockReads c),
       calls := calls c @ [Send MSG_TRACKED_IMAGE_DESPAWN
                  (Despawn \<lparr>senderId = getLocalId c, imageId = i,
                            timestamp = dateNow c (clockReads c)\<rparr>)]\<rparr>"
  by (simp add: sendDespawnMessage_def readClock_def)

lemma despawn_loop:
  "foldl (\<lambda>c (i, data). if isLocallyTracked data then sendDespawnMessage c i else c) c xs =
     c\<lparr>clockReads := clockReads c + length (filter (\<lambda>(i, d). isLocallyTracked d) xs),
       calls := calls c @
         map (\<lambda>(k, i). Send MSG_TRACKED_IMAGE_DESPAWN
                (Despawn \<lparr>senderId = getLocalId c, imageId = i, timestamp = dateNow c k\<rparr>))
           (enumerate (clockReads c) (map fst (filter (\<lambda>(i, d). isLocallyTracked d) xs)))\<rparr>"
proof (induction xs arbitrary: c)
  case Nil
  show ?case by simp
next
  case (Cons x xs)
  obtain i d where x: "x = (i, d)" by (cases x)
  show ?case
  proof (cases "isLocallyTracked d")
    case True
    then show ?thesis
      by (simp add: x Cons.IH sendDespawnMessage_eq)
  next
    case False
    then show ?thesis
      by (simp add: x Cons.IH)
  qed
qed

lemma destroy_loop:
  "foldl (\<lambda>c (i, data). c\<lparr>calls := calls c @ [RemoveFromParent (handle (object data)),
                                                Destroy (handle (object data))]\<rparr>) c xs =
     c\<lparr>calls := calls c @
         concat (map (\<lambda>(i, d). [RemoveFromParent (handle (object d)),
                                  Destroy (handle (object d))]) xs)\<rparr>"
  by (induction xs arbitrary: c) (auto)

text \<open>
  C8, as the code has it. \<open>onDisable\<close> first removes the image-tracking listener and
  stops listening on every topic, and only then sends a Despawn for every locally tracked
  entity, in registry order, each stamped with the next reading of the clock; it leaves
  the registry as it is. The entries are released by \<open>onDestroy\<close>: every host object is
  removed from its parent and destroyed, and the registry is cleared.
\<close>

theorem onDisable_unsubscribes_then_despawns:
  "onDisable c =
     c\<lparr>clockReads :=
         clockReads c + length (filter (\<lambda>(i, d). isLocallyTracked d) (syncedObjects c)),
       calls :=
         calls c
         @ (if imageTracking c \<noteq> None then [RemoveEventListener] else [])
         @ map StopListen networkTopics
         @ map (\<lambda>(k, i). Send MSG_TRACKED_IMAGE_DESPAWN
                  (Despawn \<lparr>senderId = getLocalId c, imageId = i, timestamp = dateNow c k\<rparr>))
             (enumerate (clockReads c)
                (map fst (filter (\<lambda>(i, d). isLocallyTracked d) (syncedObjects c))))\<rparr>
   \<and> syncedObjects (onDisable c) = syncedObjects c
   \<and> syncedObjects (onDestroy c) = []
   \<and> calls (onDestroy c) =
       calls c @ concat (map (\<lambda>(i, d). [RemoveFromParent (handle (object d)),
                                         Destroy (handle (object d))]) (syncedObjects c))"
  by (simp add: onDisable_def despawnAllLocallyTracked_def despawn_loop onDestroy_def destroy_loop)

text \<open>
  C8 as claimed (Despawn first, then every entry released, then the handlers
  unsubscribed) fails at the peer \<open>A\<close> holding one entity of its own: the Despawn is
  the last call, after all the unsubscriptions, and the entry is still registered with no
  call that destroys its host object.
\<close>

theorem onDisable_releases_nothing:
  "calls (onDisable peerA_owns) =
     [RemoveEventListener,
      StopListen MSG_TRACKED_IMAGE_SPAWN, StopListen MSG_TRACKED_IMAGE_TRANSFORM,
      StopListen MSG_TRACKED_IMAGE_DESPAWN, StopListen MSG_TRACKED_IMAGE_OWNERSHIP,
      StopListen MSG_TRACKED_IMAGE_STATE_REQUEST, StopListen MSG_TRACKED_IMAGE_STATE_RESPONSE,
      StopListen JoinedRoom, StopListen UserLeftRoom,
      Send MSG_TRACKED_IMAGE_DESPAWN
        (Despawn \<lparr>senderId = ''A'', imageId = ''tracked_image_0'', timestamp = 1000\<rparr>)]
   \<and> syncedObjects (onDisable peerA_owns) = [(''tracked_image_0'', entityOfA)]"
  by (simp add: onDisable_def despawnAllLocallyTracked_def sendDespawnMessage_eq
        peerA_owns_sel entityOfA_sel networkTopics_def)

subsection \<open>Transforms delivered in any order\<close>

lemma applyRelativeTransform_cong:
  "sandboxRoot c' = sandboxRoot c \<Longrightarrow> interpolationFactor c' = interpolationFactor c \<Longrightarrow>
   applyRelativeTransform E c' obj p q = applyRelativeTransform E c obj p q"
  by (simp add: applyRelativeTransform_def split: option.splits)

lemma applyRelativeTransform_frame:
  "(applyRelativeTransform E c obj p q)\<lparr>position := a, quaternion := b\<rparr>
     = obj\<lparr>position := a, quaternion := b\<rparr>"
  by (simp add: applyRelativeTransform_def Let_def split: option.splits)

lemma onReceiveTransform_config:
  "sandboxRoot (onReceiveTransform E c m) = sandboxRoot c"
  "interpolationFactor (onReceiveTransform E c m) = interpolationFactor c"
  "getLocalId (onReceiveTransform E c m) = getLocalId c"
  by (simp_all add: onReceiveTransform_def split: option.splits)

lemma onReceiveTransform_stale:
  "map_of (syncedObjects c) (imageId m) = Some d \<Longrightarrow> timestamp m < lastUpdate d \<Longrightarrow>
   onReceiveTransform E c m = c"
  by (simp add: onReceiveTransform_def)

lemma onReceiveTransform_all_stale:
  "map_of (syncedObjects c) i = Some d \<Longrightarrow>
   \<forall>m\<in>set ms. imageId m = i \<and> timestamp m < lastUpdate d \<Longrightarrow>
   foldl (onReceiveTransform E) c ms = c"
  by (induction ms) (simp_all add: onReceiveTransform_stale)

lemma smoothed_Cons:
  "smoothed E c obj (m # ms) =
     smoothed E c (applyRelativeTransform E c obj (relativePosition m) (relativeRotation m)) ms"
  by (simp add: smoothed_def)

lemma smoothed_Nil: "smoothed E c obj [] = obj"
  by (simp add: smoothed_def)

lemma transforms_end_at_latest:
  assumes "map_of (syncedObjects c) i = Some d"
    and "\<forall>m\<in>set ms. imageId m = i \<and> senderId m = ownerId d \<and> timestamp m \<le> timestamp mx"
    and "distinct (map timestamp ms)"
    and "mx \<in> set ms"
    and "lastUpdate d \<le> timestamp mx"
    and "\<not> (ownerId d = getLocalId c \<and> isLocallyTracked d)"
  shows "\<exists>prior. set prior \<subseteq> set ms \<and>
           map_of (syncedObjects (foldl (onReceiveTransform E) c ms)) i =
             Some (d\<lparr>object := applyRelativeTransform E c (smoothed E c (object d) prior)
                                  (relativePosition mx) (relativeRotation mx),
                     lastUpdate := timestamp mx\<rparr>)"
  using assms
proof (induction ms arbitrary: c d)
  case Nil
  then show ?case by simp
next
  case (Cons m ms)
  have reg: "map_of (syncedObjects c) (imageId m) = Some d"
    using Cons.prems(1,2) by simp
  have sender: "senderId m = ownerId d" using Cons.prems(2) by simp
  show ?case
  proof (cases "timestamp m < lastUpdate d")
    case True
    then have same: "onReceiveTransform E c m = c"
      using reg by (rule_tac onReceiveTransform_stale)
    have "m \<noteq> mx" using True Cons.prems(5) by auto
    then have "mx \<in> set ms" using Cons.prems(4) by simp
    have q2: "\<forall>m'\<in>set ms. imageId m' = i \<and> senderId m' = ownerId d
                \<and> timestamp m' \<le> timestamp mx"
      using Cons.prems(2) by simp
    have q3: "distinct (map timestamp ms)" using Cons.prems(3) by simp
    from Cons.IH [OF Cons.prems(1) q2 q3 \<open>mx \<in> set ms\<close> Cons.prems(5) Cons.prems(6)]
    obtain prior where pr: "set prior \<subseteq> set ms"
      "map_of (syncedObjects (foldl (onReceiveTransform E) c ms)) i =
         Some (d\<lparr>object := applyRelativeTransform E c (smoothed E c (object d) prior)
                              (relativePosition mx) (relativeRotation mx),
                 lastUpdate := timestamp mx\<rparr>)"
      by blast
    have "set prior \<subseteq> set (m # ms)" using pr(1) by auto
    moreover have "map_of (syncedObjects (foldl (onReceiveTransform E) c (m # ms))) i =
         Some (d\<lparr>object := applyRelativeTransform E c (smoothed E c (object d) prior)
                              (relativePosition mx) (relativeRotation mx),
                 lastUpdate := timestamp mx\<rparr>)"
      using pr(2) by (simp add: same)
    ultimately show ?thesis by blast
  next
    case False
    define d1 where
      "d1 = d\<lparr>object := applyRelativeTransform E c (object d)
                           (relativePosition m) (relativeRotation m),
              lastUpdate := timestamp m\<rparr>"
    define c1 where "c1 = onReceiveTransform E c m"
    have c1: "c1 = c\<lparr>syncedObjects := AList.update (imageId m) d1 (syncedObjects c)\<rparr>"
      using False reg sender Cons.prems(6)
      by (auto simp add: c1_def d1_def onReceiveTransform_def)
    have i: "imageId m = i" using Cons.prems(2) by simp
    have reg1: "map_of (syncedObjects c1) i = Some d1"
      by (simp add: c1 i update_conv')
    have cfg: "sandboxRoot c1 = sandboxRoot c" "interpolationFactor c1 = interpolationFactor c"
      "getLocalId c1 = getLocalId c"
      by (simp_all add: c1)
    show ?thesis
    proof (cases "m = mx")
      case True
      have "\<forall>m'\<in>set ms. imageId m' = i \<and> timestamp m' < lastUpdate d1"
      proof
        fix m' assume m': "m' \<in> set ms"
        then have "timestamp m' \<in> timestamp ` set ms" by (rule imageI)
        then have "timestamp m' \<noteq> timestamp m" using Cons.prems(3) by auto
        moreover have "timestamp m' \<le> timestamp m" using Cons.prems(2) m' True by simp
        ultimately show "imageId m' = i \<and> timestamp m' < lastUpdate d1"
          using Cons.prems(2) m' by (simp add: d1_def)
      qed
      then have "foldl (onReceiveTransform E) c1 ms = c1"
        using reg1 by (rule_tac onReceiveTransform_all_stale)
      then have "map_of (syncedObjects (foldl (onReceiveTransform E) c (m # ms))) i = Some d1"
        using reg1 by (simp add: c1_def)
      then have "map_of (syncedObjects (foldl (onReceiveTransform E) c (m # ms))) i =
          Some (d\<lparr>object := applyRelativeTransform E c (smoothed E c (object d) [])
                               (relativePosition mx) (relativeRotation mx),
                  lastUpdate := timestamp mx\<rparr>)"
        using True by (simp add: d1_def smoothed_Nil)
      moreover have "set [] \<subseteq> set (m # ms)" by simp
      ultimately show ?thesis by blast
    next
      case False
      then have mx: "mx \<in> set ms" using Cons.prems(4) by simp
      have p2: "\<forall>m'\<in>set ms. imageId m' = i \<and> senderId m' = ownerId d1
                  \<and> timestamp m' \<le> timestamp mx"
        using Cons.prems(2) by (simp add: d1_def)
      have p5: "lastUpdate d1 \<le> timestamp mx" using Cons.prems(2) by (simp add: d1_def)
      have p6: "\<not> (ownerId d1 = getLocalId c1 \<and> isLocallyTracked d1)"
        using Cons.prems(6) by (simp add: d1_def cfg)
      have p3: "distinct (map timestamp ms)" using Cons.prems(3) by simp
      from Cons.IH [OF reg1 p2 p3 mx p5 p6]
      obtain prior where prior: "set prior \<subseteq> set ms"
        "map_of (syncedObjects (foldl (onReceiveTransform E) c1 ms)) i =
           Some (d1\<lparr>object := applyRelativeTransform E c1 (smoothed E c1 (object d1) prior)
                                 (relativePosition mx) (relativeRotation mx),
                    lastUpdate := timestamp mx\<rparr>)"
        by blast
      have sm: "smoothed E c1 obj xs = smoothed E c obj xs" for obj xs
        by (simp add: smoothed_def applyRelativeTransform_cong [OF cfg(1,2)])
      have d1d: "d1\<lparr>object := X, lastUpdate := T\<rparr> = d\<lparr>object := X, lastUpdate := T\<rparr>" for X T
        by (simp add: d1_def)
      have od1: "object d1 = applyRelativeTransform E c (object d)
                               (relativePosition m) (relativeRotation m)"
        by (simp add: d1_def)
      have fold: "foldl (onReceiveTransform E) c (m # ms) = foldl (onReceiveTransform E) c1 ms"
        by (simp add: c1_def)
      have "map_of (syncedObjects (foldl (onReceiveTransform E) c (m # ms))) i =
              Some (d\<lparr>object := applyRelativeTransform E c (smoothed E c (object d) (m # prior))
                                   (relativePosition mx) (relativeRotation mx),
                      lastUpdate := timestamp mx\<rparr>)"
        unfolding fold prior(2) d1d sm od1 smoothed_Cons
        by (simp only: applyRelativeTransform_cong [OF cfg(1,2)])
      moreover have "set (m # prior) \<subseteq> set (m # ms)" using prior(1) by auto
      ultimately show ?thesis by blast
    qed
  qed
qed


lemma smoothed_frame:
  "(smoothed E c obj prior)\<lparr>position := a, quaternion := b\<rparr> = obj\<lparr>position := a, quaternion := b\<rparr>"
proof (induction prior arbitrary: obj)
  case Nil
  show ?case by (simp add: smoothed_Nil)
next
  case (Cons m prior)
  show ?case
    by (simp only: smoothed_Cons Cons.IH applyRelativeTransform_frame)
qed

lemma smoothed_parent: "parent (smoothed E c obj prior) = parent obj"
proof -
  have "parent ((smoothed E c obj prior)\<lparr>position := position obj, quaternion := quaternion obj\<rparr>)
          = parent obj"
    by (simp only: smoothed_frame) simp
  then show ?thesis by simp
qed

lemma smoothed_no_sandbox: "sandboxRoot c = None \<Longrightarrow> smoothed E c obj prior = obj"
  by (induction prior arbitrary: obj)
     (simp_all add: smoothed_Nil smoothed_Cons applyRelativeTransform_def)

lemma applyRelativeTransform_full:
  assumes one: "interpolationFactor c = 1"
    and l: "\<forall>p v. lerp E p v 1 = v"
    and s: "\<forall>q qb. slerp E q qb 1 = qb"
  shows "applyRelativeTransform E c (smoothed E c obj prior) p q
           = applyRelativeTransform E c obj p q"
proof (cases "sandboxRoot c")
  case None
  then show ?thesis by (simp add: smoothed_no_sandbox)
next
  case (Some anc)
  have full: "applyRelativeTransform E c o' p q =
          (if parent o' = Node (nodeId anc)
           then o'\<lparr>position := p, quaternion := q\<rparr>
           else o'\<lparr>position := applyMatrix4 E p (matrixWorld anc),
                   quaternion := premultiply E q (worldQuaternion anc)\<rparr>)" for o'
    by (simp add: applyRelativeTransform_def Some one l s Let_def)
  show ?thesis
    by (simp only: full smoothed_parent smoothed_frame)
qed

lemma applyRelativeTransform_full_local:
  assumes "interpolationFactor c = 1"
    and "\<forall>p v. lerp E p v 1 = v"
    and "\<forall>q qb. slerp E q qb 1 = qb"
    and "sandboxRoot c = Some anc" and "parent obj = Node (nodeId anc)"
  shows "applyRelativeTransform E c obj p q = obj\<lparr>position := p, quaternion := q\<rparr>"
  using assms by (simp add: applyRelativeTransform_def)

lemma mset_eq_distinct_map:
  "mset xs = mset ys \<Longrightarrow> distinct (map f xs) = distinct (map f ys)"
proof -
  assume "mset xs = mset ys"
  then have "mset (map f xs) = mset (map f ys)" by simp
  then show ?thesis by (rule mset_eq_imp_distinct_iff)
qed

text \<open>
  C5, as the code has it. Take transforms for one registered entity, all from its stored
  owner (who is not the local peer tracking it), with distinct timestamps, the newest of
  them \<open>mx\<close> not older than the stored timestamp, delivered in any order \<open>ms'\<close>. A
  transform older than the stored timestamp is never applied. The last transform applied
  is always \<open>mx\<close>, and the stored timestamp ends as its timestamp; the object ends as
  \<open>applyRelativeTransform\<close> leaves it for \<open>mx\<close>, starting from the object smoothed towards
  the transforms \<open>prior\<close> that were applied before, which depend on the order. When
  \<open>interpolationFactor\<close> is 1 (and interpolating all the way yields the target), the
  prior transforms leave no trace: the final record is the same in every order, and for
  an object under the sandbox root its pose is the pose \<open>mx\<close> carries.
\<close>

theorem transforms_in_any_order:
  assumes reg: "map_of (syncedObjects c) i = Some d"
    and from_owner: "\<forall>m\<in>set ms. imageId m = i \<and> senderId m = ownerId d"
    and dist: "distinct (map timestamp ms)"
    and mx: "mx \<in> set ms"
    and newest: "\<forall>m\<in>set ms. timestamp m \<le> timestamp mx"
    and fresh: "lastUpdate d \<le> timestamp mx"
    and remote: "\<not> (ownerId d = getLocalId c \<and> isLocallyTracked d)"
    and perm: "mset ms' = mset ms"
  shows "(\<forall>c' m d'. map_of (syncedObjects c') (imageId m) = Some d' \<and> timestamp m < lastUpdate d'
            \<longrightarrow> onReceiveTransform E c' m = c')
       \<and> (\<exists>prior. set prior \<subseteq> set ms \<and>
             map_of (syncedObjects (foldl (onReceiveTransform E) c ms')) i =
               Some (d\<lparr>object := applyRelativeTransform E c (smoothed E c (object d) prior)
                                    (relativePosition mx) (relativeRotation mx),
                       lastUpdate := timestamp mx\<rparr>))
       \<and> (interpolationFactor c = 1 \<and> (\<forall>p v. lerp E p v 1 = v) \<and> (\<forall>q qb. slerp E q qb 1 = qb)
            \<longrightarrow> map_of (syncedObjects (foldl (onReceiveTransform E) c ms')) i =
                  Some (d\<lparr>object := applyRelativeTransform E c (object d)
                                       (relativePosition mx) (relativeRotation mx),
                          lastUpdate := timestamp mx\<rparr>)
                \<and> (\<forall>anc. sandboxRoot c = Some anc \<and> parent (object d) = Node (nodeId anc)
                      \<longrightarrow> map_of (syncedObjects (foldl (onReceiveTransform E) c ms')) i =
                            Some (d\<lparr>object := (object d)\<lparr>position := relativePosition mx,
                                                         quaternion := relativeRotation mx\<rparr>,
                                    lastUpdate := timestamp mx\<rparr>)))"
proof -
  have set_eq: "set ms' = set ms" using perm by (rule mset_eq_setD)
  have p2: "\<forall>m\<in>set ms'. imageId m = i \<and> senderId m = ownerId d \<and> timestamp m \<le> timestamp mx"
    using from_owner newest by (simp add: set_eq)
  have p3: "distinct (map timestamp ms')"
    using dist mset_eq_distinct_map [OF perm, of timestamp] by simp
  have p4: "mx \<in> set ms'" using mx by (simp add: set_eq)
  from transforms_end_at_latest [OF reg p2 p3 p4 fresh remote, of E]
  obtain prior where prior: "set prior \<subseteq> set ms'"
    "map_of (syncedObjects (foldl (onReceiveTransform E) c ms')) i =
       Some (d\<lparr>object := applyRelativeTransform E c (smoothed E c (object d) prior)
                            (relativePosition mx) (relativeRotation mx),
               lastUpdate := timestamp mx\<rparr>)"
    by blast
  have A: "\<forall>c' m d'. map_of (syncedObjects c') (imageId m) = Some d' \<and> timestamp m < lastUpdate d'
            \<longrightarrow> onReceiveTransform E c' m = c'"
    by (simp add: onReceiveTransform_stale)
  have B: "\<exists>prior. set prior \<subseteq> set ms \<and>
             map_of (syncedObjects (foldl (onReceiveTransform E) c ms')) i =
               Some (d\<lparr>object := applyRelativeTransform E c (smoothed E c (object d) prior)
                                    (relativePosition mx) (relativeRotation mx),
                       lastUpdate := timestamp mx\<rparr>)"
    using prior set_eq by blast
  have C: "map_of (syncedObjects (foldl (onReceiveTransform E) c ms')) i =
                  Some (d\<lparr>object := applyRelativeTransform E c (object d)
                                       (relativePosition mx) (relativeRotation mx),
                          lastUpdate := timestamp mx\<rparr>)"
    if "interpolationFactor c = 1" "\<forall>p v. lerp E p v 1 = v" "\<forall>q qb. slerp E q qb 1 = qb"
    using prior(2) by (simp only: applyRelativeTransform_full [OF that])
  have D: "map_of (syncedObjects (foldl (onReceiveTransform E) c ms')) i =
                            Some (d\<lparr>object := (object d)\<lparr>position := relativePosition mx,
                                                         quaternion := relativeRotation mx\<rparr>,
                                    lastUpdate := timestamp mx\<rparr>)"
    if "interpolationFactor c = 1" "\<forall>p v. lerp E p v 1 = v" "\<forall>q qb. slerp E q qb 1 = qb"
      "sandboxRoot c = Some anc" "parent (object d) = Node (nodeId anc)" for anc
    using C [OF that(1,2,3)] by (simp only: applyRelativeTransform_full_local [OF that])
  show ?thesis
    using A B C D by blast
qed


lemma moves_sel:
  "senderId firstMove = ''B''" "imageId firstMove = ''tracked_image_0''"
  "timestamp firstMove = 101" "relativePosition firstMove = vec 8 0 0"
  "relativeRotation firstMove = identityQuaternion"
  "senderId secondMove = ''B''" "imageId secondMove = ''tracked_image_0''"
  "timestamp secondMove = 102" "relativePosition secondMove = vec 0 8 0"
  "relativeRotation secondMove = identityQuaternion"
  by (simp_all add: firstMove_def secondMove_def transformOf_sel)

lemma peerA_snapsB_sel:
  "syncedObjects peerA_snapsB = [(''tracked_image_0'', entityOfB)]"
  "getLocalId peerA_snapsB = ''A''"
  "sandboxRoot peerA_snapsB = Some sandbox0"
  "interpolationFactor peerA_snapsB = 1"
  by (simp_all add: peerA_snapsB_def peerA_seesB_def peerA_def getLocalId_def)

lemma three_lerp_one: "lerp three p v 1 = v"
  by (simp add: three_def lerpReal_def)

lemma three_slerp_one: "slerp three q qb 1 = qb"
  by (simp add: three_def slerpReal_def)

theorem transforms_in_any_order_witness:
  "map_of (syncedObjects peerA_snapsB) ''tracked_image_0'' = Some entityOfB
   \<and> senderId firstMove = ownerId entityOfB \<and> senderId secondMove = ownerId entityOfB
   \<and> distinct (map timestamp [firstMove, secondMove])
   \<and> timestamp firstMove \<le> timestamp secondMove
   \<and> lastUpdate entityOfB \<le> timestamp secondMove
   \<and> ownerId entityOfB \<noteq> getLocalId peerA_snapsB
   \<and> interpolationFactor peerA_snapsB = 1
   \<and> map_of (syncedObjects (foldl (onReceiveTransform three) peerA_snapsB
                [secondMove, firstMove])) ''tracked_image_0'' =
        Some (entityOfB\<lparr>object := (object entityOfB)\<lparr>position := vec 0 8 0,
                                                       quaternion := identityQuaternion\<rparr>,
                         lastUpdate := 102\<rparr>)
   \<and> map_of (syncedObjects (foldl (onReceiveTransform three) peerA_snapsB
                [firstMove, secondMove])) ''tracked_image_0'' =
        Some (entityOfB\<lparr>object := (object entityOfB)\<lparr>position := vec 0 8 0,
                                                       quaternion := identityQuaternion\<rparr>,
                         lastUpdate := 102\<rparr>)"
proof -
  have reg: "map_of (syncedObjects peerA_snapsB) ''tracked_image_0'' = Some entityOfB"
    by (simp add: peerA_snapsB_sel)
  have from_owner: "\<forall>m\<in>set [firstMove, secondMove].
      imageId m = ''tracked_image_0'' \<and> senderId m = ownerId entityOfB"
    by (simp add: moves_sel entityOfB_sel)
  have dist: "distinct (map timestamp [firstMove, secondMove])"
    by (simp add: moves_sel)
  have mx: "secondMove \<in> set [firstMove, secondMove]" by simp
  have newest: "\<forall>m\<in>set [firstMove, secondMove]. timestamp m \<le> timestamp secondMove"
    by (simp add: moves_sel)
  have fresh: "lastUpdate entityOfB \<le> timestamp secondMove"
    by (simp add: moves_sel entityOfB_sel)
  have remote: "\<not> (ownerId entityOfB = getLocalId peerA_snapsB \<and> isLocallyTracked entityOfB)"
    by (simp add: entityOfB_sel peerA_snapsB_sel)
  have swapped: "mset [secondMove, firstMove] = mset [firstMove, secondMove]" by simp
  have same: "mset [firstMove, secondMove] = mset [firstMove, secondMove]" by simp
  have full: "interpolationFactor peerA_snapsB = 1 \<and> (\<forall>p v. lerp three p v 1 = v)
                \<and> (\<forall>q qb. slerp three q qb 1 = qb)"
    by (simp add: peerA_snapsB_sel three_lerp_one three_slerp_one)
  have par: "sandboxRoot peerA_snapsB = Some sandbox0
               \<and> parent (object entityOfB) = Node (nodeId sandbox0)"
    by (simp add: peerA_snapsB_sel entityOfB_sel sandbox0_def)
  note t1 = transforms_in_any_order [OF reg from_owner dist mx newest fresh remote swapped, of three]
  note t2 = transforms_in_any_order [OF reg from_owner dist mx newest fresh remote same, of three]
  have r1: "map_of (syncedObjects (foldl (onReceiveTransform three) peerA_snapsB
                [secondMove, firstMove])) ''tracked_image_0'' =
        Some (entityOfB\<lparr>object := (object entityOfB)\<lparr>position := relativePosition secondMove,
                                                       quaternion := relativeRotation secondMove\<rparr>,
                         lastUpdate := timestamp secondMove\<rparr>)"
    using t1 full par by blast
  have r2: "map_of (syncedObjects (foldl (onReceiveTransform three) peerA_snapsB
                [firstMove, secondMove])) ''tracked_image_0'' =
        Some (entityOfB\<lparr>object := (object entityOfB)\<lparr>position := relativePosition secondMove,
                                                       quaternion := relativeRotation secondMove\<rparr>,
                         lastUpdate := timestamp secondMove\<rparr>)"
    using t2 full par by blast
  show ?thesis
    using r1 r2 by (simp add: moves_sel entityOfB_sel peerA_snapsB_sel)
qed

lemma lerpReal_vec:
  "lerpReal (vec a b d) (vec a' b' d') t =
     vec (a + (a' - a) * t) (b + (b' - b) * t) (d + (d' - d) * t)"
  by (simp add: lerpReal_def vec_def)

lemma applyRelativeTransform_local:
  "sandboxRoot c = Some sandbox0 \<Longrightarrow> parent obj = Node 0 \<Longrightarrow>
   applyRelativeTransform three c obj p q =
     obj\<lparr>position := lerpReal (position obj) p (interpolationFactor c),
         quaternion := slerpReal (quaternion obj) q (interpolationFactor c)\<rparr>"
  by (simp add: applyRelativeTransform_def sandbox0_def three_def)

text \<open>
  C5 as claimed (the final pose is the pose of the newest transform, whatever the
  order) fails with \<open>interpolationFactor = 1/2\<close>: the entity of \<open>B\<close> starts at the
  origin, and the transforms to \<open>(8, 0, 0)\<close> at 101 and to \<open>(0, 8, 0)\<close> at 102 leave it
  at \<open>(2, 4, 0)\<close> in this order and at \<open>(0, 4, 0)\<close> in the other, never at
  \<open>(0, 8, 0)\<close>.
\<close>

theorem smoothing_depends_on_order:
  "map_of (syncedObjects (foldl (onReceiveTransform three) peerA_seesB
             [firstMove, secondMove])) ''tracked_image_0'' =
     Some (entityOfB\<lparr>object := (object entityOfB)\<lparr>position := vec 2 4 0\<rparr>, lastUpdate := 102\<rparr>)
   \<and> map_of (syncedObjects (foldl (onReceiveTransform three) peerA_seesB
             [secondMove, firstMove])) ''tracked_image_0'' =
     Some (entityOfB\<lparr>object := (object entityOfB)\<lparr>position := vec 0 4 0\<rparr>, lastUpdate := 102\<rparr>)
   \<and> relativePosition secondMove = vec 0 8 0"
  by (simp add: onReceiveTransform_def moves_sel peerA_seesB_sel entityOfB_sel
        applyRelativeTransform_local lerpReal_vec slerpReal_same)

subsection \<open>Timestamps along a run\<close>

lemma evolves_refl: "evolves c c"
  by (simp add: evolves_def)

lemma evolves_trans [trans]:
  assumes "evolves a b" and "evolves b c"
  shows "evolves a c"
  unfolding evolves_def
proof (intro conjI allI impI)
  show "nextHandle a \<le> nextHandle c"
    using assms by (simp add: evolves_def)
next
  fix i d'' assume top: "map_of (syncedObjects c) i = Some d''"
  from assms(2) top consider
      (new) "nextHandle b \<le> handle (object d'')" "handle (object d'') < nextHandle c"
    | (old) d' where "map_of (syncedObjects b) i = Some d'"
        "handle (object d') = handle (object d'')" "lastUpdate d' \<le> lastUpdate d''"
    unfolding evolves_def by blast
  then show "(nextHandle a \<le> handle (object d'') \<and> handle (object d'') < nextHandle c)
        \<or> (\<exists>d. map_of (syncedObjects a) i = Some d \<and> handle (object d) = handle (object d'')
                 \<and> lastUpdate d \<le> lastUpdate d'')"
  proof cases
    case new
    moreover have "nextHandle a \<le> nextHandle b" using assms(1) by (simp add: evolves_def)
    ultimately show ?thesis by simp
  next
    case old
    from assms(1) old(1) consider
        (new') "nextHandle a \<le> handle (object d')" "handle (object d') < nextHandle b"
      | (old') d where "map_of (syncedObjects a) i = Some d"
          "handle (object d) = handle (object d')" "lastUpdate d \<le> lastUpdate d'"
      unfolding evolves_def by blast
    then show ?thesis
    proof cases
      case new'
      moreover have "nextHandle b \<le> nextHandle c" using assms(2) by (simp add: evolves_def)
      ultimately show ?thesis using old(2) by simp
    next
      case old'
      then show ?thesis using old(2,3) by auto
    qed
  qed
qed

lemma evolves_foldl:
  assumes "\<And>c x. evolves c (f c x)"
  shows "evolves c (foldl f c xs)"
proof (induction xs arbitrary: c)
  case Nil
  show ?case by (simp add: evolves_refl)
next
  case (Cons x xs)
  have "evolves c (f c x)" by (rule assms)
  moreover have "evolves (f c x) (foldl f (f c x) xs)" by (rule Cons.IH)
  ultimately show ?case by (simp add: evolves_trans)
qed

lemma evolves_same:
  "syncedObjects c' = syncedObjects c \<Longrightarrow> nextHandle c' = nextHandle c \<Longrightarrow> evolves c c'"
  by (simp add: evolves_def)

lemma evolves_update:
  assumes "map_of (syncedObjects c) k = Some d"
    and "handle (object d1) = handle (object d)"
    and "lastUpdate d \<le> lastUpdate d1"
  shows "evolves c (c\<lparr>syncedObjects := AList.update k d1 (syncedObjects c)\<rparr>)"
  using assms by (auto simp add: evolves_def update_conv')

lemma evolves_removeTrackedObject: "evolves c (removeTrackedObject c k)"
  by (auto simp add: evolves_def removeTrackedObject_def delete_conv' split: option.splits)

lemma evolves_createTrackedObject: "evolves c (createTrackedObject c m)"
  by (rule evolves_same) (simp_all add: createTrackedObject_def split: option.splits)

lemma applyRelativeTransform_handle:
  "handle (applyRelativeTransform E c obj p q) = handle obj"
  by (simp add: applyRelativeTransform_def Let_def split: option.splits)

lemma evolves_resume: "evolves c (createTrackedObjectResume E c k outcome)"
  by (auto simp add: evolves_def createTrackedObjectResume_def Let_def update_conv'
        applyRelativeTransform_handle split: option.splits loadOutcome.splits)

lemma evolves_sends:
  "evolves c (sendSpawnMessage c i a t)"
  "evolves c (sendTransformMessage c i t)"
  "evolves c (sendDespawnMessage c i)"
  "evolves c (requestOwnership c i)"
  "evolves c (releaseOwnership c i)"
  by (simp_all add: evolves_def sendSpawnMessage_def sendTransformMessage_def
        sendDespawnMessage_def requestOwnership_def releaseOwnership_def readClock_def)

lemma evolves_onReceiveSpawn: "evolves c (onReceiveSpawn c m)"
proof (cases "map_of (syncedObjects c) (imageId m)")
  case None
  then show ?thesis by (simp add: onReceiveSpawn_def evolves_createTrackedObject)
next
  case (Some d)
  then show ?thesis
    by (simp add: onReceiveSpawn_def evolves_refl evolves_update)
qed

lemma evolves_onReceiveTransform: "evolves c (onReceiveTransform E c m)"
proof (cases "map_of (syncedObjects c) (imageId m)")
  case None
  then show ?thesis by (simp add: onReceiveTransform_def evolves_refl)
next
  case (Some d)
  then show ?thesis
    by (simp add: onReceiveTransform_def evolves_refl evolves_update applyRelativeTransform_handle)
qed

lemma evolves_onReceiveDespawn: "evolves c (onReceiveDespawn c m)"
  by (simp add: onReceiveDespawn_def evolves_refl evolves_removeTrackedObject split: option.splits)

lemma evolves_onReceiveOwnership: "evolves c (onReceiveOwnership c m)"
proof (cases "map_of (syncedObjects c) (imageId m)")
  case None
  then show ?thesis by (simp add: onReceiveOwnership_def evolves_refl)
next
  case (Some d)
  then show ?thesis
    by (cases "action m") (simp_all add: onReceiveOwnership_def evolves_refl evolves_update)
qed

lemma evolves_onReceiveStateRequest: "evolves c (onReceiveStateRequest E c r)"
proof (cases "r = getLocalId c")
  case True
  then show ?thesis by (simp add: onReceiveStateRequest_def evolves_refl)
next
  case False
  have "evolves c (foldl f c (syncedObjects c))"
    if f: "\<And>c x. syncedObjects (f c x) = syncedObjects c \<and> nextHandle (f c x) = nextHandle c"
    for f :: "component \<Rightarrow> string \<times> syncedTrackedObject \<Rightarrow> component"
    by (rule evolves_foldl, rule evolves_same) (simp_all add: f)
  then show ?thesis
    unfolding onReceiveStateRequest_def
    by (simp add: False readClock_def split_beta split: option.splits)
qed

lemma evolves_onReceiveStateResponse: "evolves c (onReceiveStateResponse c m)"
  by (simp add: onReceiveStateResponse_def evolves_refl evolves_createTrackedObject)

lemma evolves_onUserJoined: "evolves c (onUserJoined c u)"
  by (rule evolves_same) (simp_all add: onUserJoined_def)

lemma evolves_onUserLeft: "evolves c (onUserLeft c u)"
  unfolding onUserLeft_def
  by (rule evolves_foldl) (auto simp add: evolves_refl evolves_removeTrackedObject)

lemma evolves_lost: "evolves c (removeTrackedObject (sendDespawnMessage (releaseOwnership c i) i) i)"
proof -
  have "evolves c (releaseOwnership c i)" by (rule evolves_sends)
  moreover have "evolves (releaseOwnership c i) (sendDespawnMessage (releaseOwnership c i) i)"
    by (rule evolves_sends)
  ultimately have "evolves c (sendDespawnMessage (releaseOwnership c i) i)"
    by (rule evolves_trans)
  moreover have "evolves (sendDespawnMessage (releaseOwnership c i) i)
                   (removeTrackedObject (sendDespawnMessage (releaseOwnership c i) i) i)"
    by (rule evolves_removeTrackedObject)
  ultimately show ?thesis by (rule evolves_trans)
qed

lemma evolves_checkForLostTracking: "evolves c (checkForLostTracking c images)"
  unfolding checkForLostTracking_def Let_def
  by (rule evolves_foldl) (simp add: evolves_refl evolves_lost split_beta)

lemma evolves_trackImage: "evolves c (trackImage E b c img)"
  by (simp add: trackImage_def Let_def evolves_refl evolves_sends split: option.splits)

lemma evolves_onImageTrackingUpdate: "evolves c (onImageTrackingUpdate E c detail)"
proof -
  have clock: "evolves c (snd (readClock c))"
    by (rule evolves_same) (simp_all add: readClock_def)
  have loop: "evolves c1 (foldl (trackImage E b) c1 images)" for c1 b images
    by (rule evolves_foldl) (rule evolves_trackImage)
  have stamp: "evolves c2 (if b then c2\<lparr>lastUpdateTime := t\<rparr> else c2)" for c2 b t
    by (rule evolves_same) simp_all
  have body: "evolves c (checkForLostTracking
                     (if b then (foldl (trackImage E b) (snd (readClock c)) images)\<lparr>lastUpdateTime := t\<rparr>
                      else foldl (trackImage E b) (snd (readClock c)) images) images)"
    for b t images
  proof -
    note clock
    also note loop [of "snd (readClock c)" b images]
    also note stamp [of "foldl (trackImage E b) (snd (readClock c)) images" b t]
    also note evolves_checkForLostTracking
    finally show ?thesis .
  qed
  show ?thesis
  proof (cases "canSync c")
    case False
    then show ?thesis by (simp add: onImageTrackingUpdate_def evolves_refl)
  next
    case True
    show ?thesis
    proof (cases detail)
      case None
      then show ?thesis by (simp add: onImageTrackingUpdate_def evolves_refl)
    next
      case (Some images)
      show ?thesis
      proof (cases "images = []")
        case True
        then show ?thesis by (simp add: onImageTrackingUpdate_def Some evolves_refl)
      next
        case False
        then show ?thesis
          using body
          by (simp add: onImageTrackingUpdate_def Some \<open>canSync c\<close> Let_def split_beta)
      qed
    qed
  qed
qed

lemma evolves_step: "evolves c (step E c e)"
  by (cases e)
     (simp_all add: evolves_onImageTrackingUpdate evolves_onReceiveSpawn
        evolves_onReceiveTransform evolves_onReceiveDespawn evolves_onReceiveOwnership
        evolves_onReceiveStateRequest evolves_onReceiveStateResponse evolves_onUserJoined
        evolves_onUserLeft evolves_resume)

lemma evolves_run: "evolves c (run E c events)"
  unfolding run_def by (rule evolves_foldl) (rule evolves_step)

lemma handlesBelow_evolves: "handlesBelow c \<Longrightarrow> evolves c c' \<Longrightarrow> handlesBelow c'"
  unfolding handlesBelow_def evolves_def
proof (intro allI impI)
  fix i d assume a: "nextHandle c \<le> nextHandle c' \<and>
     (\<forall>i d'. map_of (syncedObjects c') i = Some d' \<longrightarrow>
        (nextHandle c \<le> handle (object d') \<and> handle (object d') < nextHandle c')
        \<or> (\<exists>d. map_of (syncedObjects c) i = Some d \<and> handle (object d) = handle (object d')
                 \<and> lastUpdate d \<le> lastUpdate d'))"
    and b: "\<forall>i d. map_of (syncedObjects c) i = Some d \<longrightarrow> handle (object d) < nextHandle c"
    and e: "map_of (syncedObjects c') i = Some d"
  from a e consider "handle (object d) < nextHandle c'"
    | d0 where "map_of (syncedObjects c) i = Some d0" "handle (object d0) = handle (object d)"
    by blast
  then show "handle (object d) < nextHandle c'"
  proof cases
    case 1
    then show ?thesis .
  next
    case 2
    then have "handle (object d) < nextHandle c" using b by force
    then show ?thesis using a by simp
  qed
qed

lemma run_append: "run E c (xs @ ys) = run E (run E c xs) ys"
  by (simp add: run_def)

text \<open>
  As long as an id keeps its host object, its timestamp does not go back. Start from an
  empty registry and run any events \<open>before\<close> and then any events \<open>later\<close>: if the
  id is registered at both points with the same host object, its timestamp after
  \<open>later\<close> is not older than it was before. On a registered id, a Transform leaves a
  timestamp that is not older, and a Spawn or an Ownership message leaves the timestamp
  as it was. This says nothing of a record that is written again with another host
  object while the id stays registered; the last theorem of this subsection is about
  that.
\<close>

theorem lastUpdate_never_decreases:
  assumes "syncedObjects c0 = []"
    and "map_of (syncedObjects (run E c0 before)) i = Some d"
    and "map_of (syncedObjects (run E c0 (before @ later))) i = Some d'"
    and "handle (object d') = handle (object d)"
  shows "lastUpdate d \<le> lastUpdate d'
       \<and> (\<forall>c m d1. map_of (syncedObjects c) (imageId m) = Some d1 \<longrightarrow>
             (\<exists>d2. map_of (syncedObjects (onReceiveTransform E c m)) (imageId m) = Some d2
                    \<and> lastUpdate d1 \<le> lastUpdate d2))
       \<and> (\<forall>c m d1. map_of (syncedObjects c) (imageId m) = Some d1 \<longrightarrow>
             (\<exists>d2. map_of (syncedObjects (onReceiveSpawn c m)) (imageId m) = Some d2
                    \<and> lastUpdate d2 = lastUpdate d1))
       \<and> (\<forall>c m d1. map_of (syncedObjects c) (imageId m) = Some d1 \<longrightarrow>
             (\<exists>d2. map_of (syncedObjects (onReceiveOwnership c m)) (imageId m) = Some d2
                    \<and> lastUpdate d2 = lastUpdate d1))"
proof -
  have "handlesBelow c0" using assms(1) by (simp add: handlesBelow_def)
  then have below: "handlesBelow (run E c0 before)"
    using evolves_run by (rule handlesBelow_evolves)
  have "evolves (run E c0 before) (run E c0 (before @ later))"
    by (simp add: run_append evolves_run)
  with assms(3) consider
      (new) "nextHandle (run E c0 before) \<le> handle (object d')"
    | (old) d0 where "map_of (syncedObjects (run E c0 before)) i = Some d0"
        "lastUpdate d0 \<le> lastUpdate d'"
    unfolding evolves_def by blast
  then have main: "lastUpdate d \<le> lastUpdate d'"
  proof cases
    case new
    moreover have "handle (object d) < nextHandle (run E c0 before)"
      using below assms(2) by (simp add: handlesBelow_def)
    ultimately show ?thesis using assms(4) by simp
  next
    case old
    then show ?thesis using assms(2) by simp
  qed
  have transform: "\<exists>d2. map_of (syncedObjects (onReceiveTransform E c m)) (imageId m) = Some d2
                    \<and> lastUpdate d1 \<le> lastUpdate d2"
    if "map_of (syncedObjects c) (imageId m) = Some d1" for c m d1
    using that by (simp add: onReceiveTransform_def update_conv')
  have spawn: "\<exists>d2. map_of (syncedObjects (onReceiveSpawn c m)) (imageId m) = Some d2
                    \<and> lastUpdate d2 = lastUpdate d1"
    if "map_of (syncedObjects c) (imageId m) = Some d1" for c m d1
    using that by (simp add: onReceiveSpawn_def update_conv')
  have ownership: "\<exists>d2. map_of (syncedObjects (onReceiveOwnership c m)) (imageId m) = Some d2
                    \<and> lastUpdate d2 = lastUpdate d1"
    if "map_of (syncedObjects c) (imageId m) = Some d1" for c m d1
    using that by (cases "action m") (simp_all add: onReceiveOwnership_def update_conv')
  show ?thesis
    using main transform spawn ownership by blast
qed

lemma run_spawnThenLoad:
  "run three peerA spawnThenLoad =
     peerA\<lparr>syncedObjects :=
             [(''tracked_image_0'',
               \<lparr>object = \<lparr>handle = 0, position = vec 0 0 0, quaternion = identityQuaternion,
                           parent = Node 0\<rparr>,
                ownerId = ''B'', storedAssetIndex = 0, lastUpdate = 10,
                isLocallyTracked = False\<rparr>)],
           pendingLoads := [], nextLoad := 1, nextHandle := 1,
           calls := [Instantiate 0 ''tracked_image_0'', SetActive 0 True]\<rparr>"
  by (simp add: run_def spawnThenLoad_def spawn_peerA createTrackedObjectResume_def peerA_sel
        spawnOf_sel applyRelativeTransform_origin Let_def nodeId_sandbox0)

theorem lastUpdate_never_decreases_witness:
  "syncedObjects peerA = []
   \<and> map_of (syncedObjects (run three peerA spawnThenLoad)) ''tracked_image_0'' =
       Some \<lparr>object = \<lparr>handle = 0, position = vec 0 0 0, quaternion = identityQuaternion,
                        parent = Node 0\<rparr>,
             ownerId = ''B'', storedAssetIndex = 0, lastUpdate = 10, isLocallyTracked = False\<rparr>
   \<and> map_of (syncedObjects (run three peerA (spawnThenLoad @ staleThenFresh))) ''tracked_image_0'' =
       Some \<lparr>object = \<lparr>handle = 0, position = vec 4 0 0, quaternion = identityQuaternion,
                        parent = Node 0\<rparr>,
             ownerId = ''B'', storedAssetIndex = 0, lastUpdate = 20, isLocallyTracked = False\<rparr>
   \<and> (10::int) \<le> 20"
proof -
  have before: "map_of (syncedObjects (run three peerA spawnThenLoad)) ''tracked_image_0'' =
       Some \<lparr>object = \<lparr>handle = 0, position = vec 0 0 0, quaternion = identityQuaternion,
                        parent = Node 0\<rparr>,
             ownerId = ''B'', storedAssetIndex = 0, lastUpdate = 10, isLocallyTracked = False\<rparr>"
    by (simp add: run_spawnThenLoad)
  have later: "map_of (syncedObjects (run three peerA (spawnThenLoad @ staleThenFresh)))
                 ''tracked_image_0'' =
       Some \<lparr>object = \<lparr>handle = 0, position = vec 4 0 0, quaternion = identityQuaternion,
                        parent = Node 0\<rparr>,
             ownerId = ''B'', storedAssetIndex = 0, lastUpdate = 20, isLocallyTracked = False\<rparr>"
    by (simp add: run_append run_spawnThenLoad)
       (simp add: run_def staleThenFresh_def onReceiveTransform_def transformOf_sel peerA_sel
          applyRelativeTransform_origin)
  have empty: "syncedObjects peerA = []" by (simp add: peerA_sel)
  show ?thesis
    using lastUpdate_never_decreases [OF empty before later] before later empty
    by simp
qed

text \<open>
  C4. The claim is that the timestamp stored for an entity never decreases across any
  sequence of handler invocations once the record exists. A load that completes writes
  its record whether or not the id is registered by then. Here the peer \<open>A\<close> starts with
  an empty registry and receives two Spawns for the same id, with timestamps 20 and 10,
  before either load completes. After the first load the id is registered with
  timestamp 20; the second load then replaces the record, and the id, which was never
  removed (the host was asked to instantiate and activate twice, and nothing else), is
  registered with timestamp 10.
\<close>

theorem racing_load_lowers_timestamp:
  "syncedObjects peerA = []
   \<and> map_of (syncedObjects (run three peerA racingSpawns)) ''tracked_image_0'' =
       Some \<lparr>object = \<lparr>handle = 0, position = vec 0 0 0, quaternion = identityQuaternion,
                        parent = Node 0\<rparr>,
             ownerId = ''B'', storedAssetIndex = 0, lastUpdate = 20, isLocallyTracked = False\<rparr>
   \<and> map_of (syncedObjects (run three peerA (racingSpawns @ secondLoad))) ''tracked_image_0'' =
       Some \<lparr>object = \<lparr>handle = 1, position = vec 0 0 0, quaternion = identityQuaternion,
                        parent = Node 0\<rparr>,
             ownerId = ''C'', storedAssetIndex = 0, lastUpdate = 10, isLocallyTracked = False\<rparr>
   \<and> calls (run three peerA (racingSpawns @ secondLoad)) =
       [Instantiate 0 ''tracked_image_0'', SetActive 0 True,
        Instantiate 1 ''tracked_image_0'', SetActive 1 True]"
  by (simp add: run_def racingSpawns_def secondLoad_def spawn_peerA createTrackedObjectResume_def
        peerA_sel spawnOf_sel applyRelativeTransform_origin onReceiveSpawn_def
        createTrackedObject_def arrayGet_def Let_def nodeId_sandbox0)

subsection \<open>Detecting an image that is not registered\<close>

lemma invertReal_identity: "invertReal identityMatrix = identityMatrix"
  by (simp add: invertReal_def determinant_def cofactor_def others_def det3_def entry_def
        identityMatrix_def)

lemma applyMatrix4Real_identity: "applyMatrix4Real (vec a b d) identityMatrix = vec a b d"
  by (simp add: applyMatrix4Real_def identityMatrix_def vec_def)

lemma calculateRelativeTransform_peerA:
  "sandboxRoot c = Some sandbox0 \<Longrightarrow>
   calculateRelativeTransform three c seenImage = Some (vec 1 2 3, identityQuaternion)"
  by (simp add: calculateRelativeTransform_def sandbox0_def three_def seenImage_def
        invertReal_identity applyMatrix4Real_identity premultiplyReal_def conjugate_def
        multiplyQuaternions_def identityQuaternion_def)

lemma getImageId_seenImage:
  "imageTracking c = Some [\<lparr>modelRef = 7, assetObject = Some 0\<rparr>] \<Longrightarrow>
   getImageId c seenImage = ''tracked_image_0'' \<and> getAssetIndex c seenImage = 0"
  by (simp add: getImageId_def getAssetIndex_def seenImage_def indexOf_def numberToString_def
        digitChar_def)

lemma shrinks_refl: "shrinks c c"
  by (simp add: shrinks_def)

lemma shrinks_trans [trans]: "shrinks a b \<Longrightarrow> shrinks b c \<Longrightarrow> shrinks a c"
  unfolding shrinks_def by (elim conjE exE) (simp)

lemma shrinks_foldl:
  assumes "\<And>c x. shrinks c (f c x)"
  shows "shrinks c (foldl f c xs)"
proof (induction xs arbitrary: c)
  case Nil
  show ?case by (simp add: shrinks_refl)
next
  case (Cons x xs)
  have "shrinks c (f c x)" by (rule assms)
  also have "shrinks (f c x) (foldl f (f c x) xs)" by (rule Cons.IH)
  finally show ?case by simp
qed

lemma shrinks_sends:
  "shrinks c (sendDespawnMessage c i)"
  "shrinks c (releaseOwnership c i)"
  by (simp_all add: shrinks_def sendDespawnMessage_def releaseOwnership_def readClock_def)

lemma shrinks_removeTrackedObject: "shrinks c (removeTrackedObject c k)"
  by (auto simp add: shrinks_def removeTrackedObject_def delete_conv' split: option.splits)

lemma shrinks_lost:
  "shrinks c (removeTrackedObject (sendDespawnMessage (releaseOwnership c i) i) i)"
proof -
  have "shrinks c (releaseOwnership c i)" by (rule shrinks_sends)
  also have "shrinks (releaseOwnership c i) (sendDespawnMessage (releaseOwnership c i) i)"
    by (rule shrinks_sends)
  also have "shrinks (sendDespawnMessage (releaseOwnership c i) i)
                   (removeTrackedObject (sendDespawnMessage (releaseOwnership c i) i) i)"
    by (rule shrinks_removeTrackedObject)
  finally show ?thesis .
qed

lemma shrinks_checkForLostTracking: "shrinks c (checkForLostTracking c images)"
  unfolding checkForLostTracking_def Let_def
  by (rule shrinks_foldl) (simp add: shrinks_refl shrinks_lost split_beta)

lemma sent_frame:
  "getImageId (c\<lparr>clockReads := n, calls := cs\<rparr>) img = getImageId c img"
  "getAssetIndex (c\<lparr>clockReads := n, calls := cs\<rparr>) img = getAssetIndex c img"
  "getLocalId (c\<lparr>clockReads := n, calls := cs\<rparr>) = getLocalId c"
  "calculateRelativeTransform E (c\<lparr>clockReads := n, calls := cs\<rparr>) img
     = calculateRelativeTransform E c img"
  by (simp_all add: getImageId_def getAssetIndex_def getLocalId_def
        calculateRelativeTransform_def)

lemma trackImage_shape:
  "\<exists>n xs. trackImage E b c img = c\<lparr>clockReads := n, calls := calls c @ xs\<rparr> \<and>
     (map_of (syncedObjects c) (getImageId c img) = None \<longrightarrow>
        (\<forall>t. calculateRelativeTransform E c img = Some t \<longrightarrow>
           (\<exists>ts. Send MSG_TRACKED_IMAGE_SPAWN
                    (Spawn \<lparr>senderId = getLocalId c, imageId = getImageId c img,
                            timestamp = ts, relativePosition = fst t,
                            relativeRotation = snd t,
                            assetIndex = getAssetIndex c img\<rparr>) \<in> set xs)))"
proof (cases "calculateRelativeTransform E c img")
  case None
  have "trackImage E b c img = c\<lparr>clockReads := clockReads c, calls := calls c @ []\<rparr>"
    by (simp add: trackImage_def None)
  then show ?thesis
    using None by (intro exI [of _ "clockReads c"] exI [of _ "[]"]) simp
next
  case (Some t)
  show ?thesis
  proof (cases "map_of (syncedObjects c) (getImageId c img)")
    case None
    have "trackImage E b c img =
            c\<lparr>clockReads := Suc (clockReads c),
              calls := calls c @
                [Send MSG_TRACKED_IMAGE_SPAWN
                   (Spawn \<lparr>senderId = getLocalId c, imageId = getImageId c img,
                           timestamp = dateNow c (clockReads c), relativePosition = fst t,
                           relativeRotation = snd t,
                           assetIndex = getAssetIndex c img\<rparr>)]\<rparr>"
      by (simp add: trackImage_def Some None sendSpawnMessage_def readClock_def)
    then show ?thesis
      using \<open>calculateRelativeTransform E c img = Some t\<close>
      by (intro exI [of _ "Suc (clockReads c)"]
            exI [of _ "[Send MSG_TRACKED_IMAGE_SPAWN
                   (Spawn \<lparr>senderId = getLocalId c, imageId = getImageId c img,
                           timestamp = dateNow c (clockReads c), relativePosition = fst t,
                           relativeRotation = snd t,
                           assetIndex = getAssetIndex c img\<rparr>)]"]) simp
  next
    case (Some existing)
    have "\<exists>n xs. trackImage E b c img = c\<lparr>clockReads := n, calls := calls c @ xs\<rparr>"
    proof (cases "isLocallyTracked existing \<and> b")
      case True
      then have "trackImage E b c img = c\<lparr>clockReads := Suc (clockReads c),
          calls := calls c @ [Send MSG_TRACKED_IMAGE_TRANSFORM
               (Transform \<lparr>senderId = getLocalId c, imageId = getImageId c img,
                           timestamp = dateNow c (clockReads c),
                           relativePosition = fst t, relativeRotation = snd t\<rparr>)]\<rparr>"
        using Some \<open>calculateRelativeTransform E c img = Some t\<close>
        by (simp add: trackImage_def sendTransformMessage_def readClock_def)
      then show ?thesis by blast
    next
      case False
      show ?thesis
      proof (cases "\<not> isLocallyTracked existing \<and> ownerId existing \<noteq> getLocalId c")
        case True
        then have "trackImage E b c img = c\<lparr>clockReads := Suc (clockReads c),
          calls := calls c @ [Send MSG_TRACKED_IMAGE_OWNERSHIP
               (Ownership \<lparr>senderId = getLocalId c, imageId = getImageId c img,
                           timestamp = dateNow c (clockReads c), action = Request\<rparr>)]\<rparr>"
          using False Some \<open>calculateRelativeTransform E c img = Some t\<close>
          by (simp add: trackImage_def requestOwnership_def readClock_def)
        then show ?thesis by blast
      next
        case nreq: False
        have "trackImage E b c img = c\<lparr>clockReads := clockReads c, calls := calls c @ []\<rparr>"
          using False nreq Some \<open>calculateRelativeTransform E c img = Some t\<close>
          by (auto simp add: trackImage_def Let_def)
        then show ?thesis by blast
      qed
    qed
    then show ?thesis using Some by simp
  qed
qed

lemma trackImage_loop:
  "\<exists>n xs. foldl (trackImage E b) c imgs = c\<lparr>clockReads := n, calls := calls c @ xs\<rparr> \<and>
     (\<forall>img\<in>set imgs. map_of (syncedObjects c) (getImageId c img) = None \<longrightarrow>
        (\<forall>t. calculateRelativeTransform E c img = Some t \<longrightarrow>
           (\<exists>ts. Send MSG_TRACKED_IMAGE_SPAWN
                    (Spawn \<lparr>senderId = getLocalId c, imageId = getImageId c img,
                            timestamp = ts, relativePosition = fst t,
                            relativeRotation = snd t,
                            assetIndex = getAssetIndex c img\<rparr>) \<in> set xs)))"
proof (induction imgs arbitrary: c)
  case Nil
  have "foldl (trackImage E b) c [] = c\<lparr>clockReads := clockReads c, calls := calls c @ []\<rparr>"
    by simp
  then show ?case by (intro exI [of _ "clockReads c"] exI [of _ "[]"]) simp
next
  case (Cons a imgs)
  from trackImage_shape [of E b c a] obtain n1 xs1 where
    first: "trackImage E b c a = c\<lparr>clockReads := n1, calls := calls c @ xs1\<rparr>"
    and spawn1: "map_of (syncedObjects c) (getImageId c a) = None \<longrightarrow>
        (\<forall>t. calculateRelativeTransform E c a = Some t \<longrightarrow>
           (\<exists>ts. Send MSG_TRACKED_IMAGE_SPAWN
                    (Spawn \<lparr>senderId = getLocalId c, imageId = getImageId c a,
                            timestamp = ts, relativePosition = fst t,
                            relativeRotation = snd t,
                            assetIndex = getAssetIndex c a\<rparr>) \<in> set xs1))"
    by (elim exE conjE) (rule that)
  define c1 where "c1 = c\<lparr>clockReads := n1, calls := calls c @ xs1\<rparr>"
  from Cons.IH [of c1] obtain n2 xs2 where
    rest: "foldl (trackImage E b) c1 imgs = c1\<lparr>clockReads := n2, calls := calls c1 @ xs2\<rparr>"
    and spawn2: "\<forall>img\<in>set imgs. map_of (syncedObjects c1) (getImageId c1 img) = None \<longrightarrow>
        (\<forall>t. calculateRelativeTransform E c1 img = Some t \<longrightarrow>
           (\<exists>ts. Send MSG_TRACKED_IMAGE_SPAWN
                    (Spawn \<lparr>senderId = getLocalId c1, imageId = getImageId c1 img,
                            timestamp = ts, relativePosition = fst t,
                            relativeRotation = snd t,
                            assetIndex = getAssetIndex c1 img\<rparr>) \<in> set xs2))"
    by (elim exE conjE) (rule that)
  have spawn2': "\<forall>img\<in>set imgs. map_of (syncedObjects c) (getImageId c img) = None \<longrightarrow>
        (\<forall>t. calculateRelativeTransform E c img = Some t \<longrightarrow>
           (\<exists>ts. Send MSG_TRACKED_IMAGE_SPAWN
                    (Spawn \<lparr>senderId = getLocalId c, imageId = getImageId c img,
                            timestamp = ts, relativePosition = fst t,
                            relativeRotation = snd t,
                            assetIndex = getAssetIndex c img\<rparr>) \<in> set xs2))"
    using spawn2 by (simp add: c1_def sent_frame)
  have whole: "foldl (trackImage E b) c (a # imgs) =
                 c\<lparr>clockReads := n2, calls := calls c @ (xs1 @ xs2)\<rparr>"
    by (simp add: first c1_def [symmetric] rest) (simp add: c1_def)
  define sp where "sp img t ts =
      Send MSG_TRACKED_IMAGE_SPAWN
        (Spawn \<lparr>senderId = getLocalId c, imageId = getImageId c img,
                timestamp = ts, relativePosition = fst t,
                relativeRotation = snd t,
                assetIndex = getAssetIndex c img\<rparr>)" for img :: trackedImage and t :: "vector3 \<times> quaternion" and ts :: int
  have one: "map_of (syncedObjects c) (getImageId c a) = None \<Longrightarrow>
             calculateRelativeTransform E c a = Some t \<Longrightarrow> \<exists>ts. sp a t ts \<in> set xs1" for t
    using spawn1 by (simp add: sp_def)
  have two: "img \<in> set imgs \<Longrightarrow> map_of (syncedObjects c) (getImageId c img) = None \<Longrightarrow>
             calculateRelativeTransform E c img = Some t \<Longrightarrow> \<exists>ts. sp img t ts \<in> set xs2" for img t
    using spawn2' by (simp add: sp_def)
  have "\<exists>ts. sp img t ts \<in> set (xs1 @ xs2)"
    if h: "img \<in> set (a # imgs)" "map_of (syncedObjects c) (getImageId c img) = None"
       "calculateRelativeTransform E c img = Some t" for img t
  proof (cases "img = a")
    case True
    then obtain ts where "sp img t ts \<in> set xs1" using one h by blast
    then show ?thesis by auto
  next
    case False
    then have "img \<in> set imgs" using h(1) by simp
    then obtain ts where "sp img t ts \<in> set xs2" using two h by blast
    then show ?thesis by auto
  qed
  then have "\<forall>img\<in>set (a # imgs). map_of (syncedObjects c) (getImageId c img) = None \<longrightarrow>
        (\<forall>t. calculateRelativeTransform E c img = Some t \<longrightarrow>
           (\<exists>ts. Send MSG_TRACKED_IMAGE_SPAWN
                    (Spawn \<lparr>senderId = getLocalId c, imageId = getImageId c img,
                            timestamp = ts, relativePosition = fst t,
                            relativeRotation = snd t,
                            assetIndex = getAssetIndex c img\<rparr>) \<in> set (xs1 @ xs2)))"
    unfolding sp_def by blast
  with whole show ?case
    by (intro exI [of _ n2] exI [of _ "xs1 @ xs2"] conjI)
qed

lemma own_spawn_registers:
  assumes "map_of (syncedObjects c) (imageId m) = None"
    and "imageTracking c = Some tis"
    and "arrayGet tis (assetIndex m) = Some tm"
    and "assetObject tm = Some a"
    and "map_of (pendingLoads c) (nextLoad c) = None"
    and "senderId m = getLocalId c"
  shows "\<exists>d. map_of (syncedObjects
                 (run E c [ReceiveSpawn m, LoadSettled (nextLoad c) (Instance p q)]))
               (imageId m) = Some d
             \<and> ownerId d = getLocalId c \<and> isLocallyTracked d"
proof -
  have s1: "onReceiveSpawn c m =
              c\<lparr>pendingLoads := pendingLoads c @ [(nextLoad c, m)], nextLoad := Suc (nextLoad c)\<rparr>"
    using assms by (simp add: onReceiveSpawn_def createTrackedObject_def)
  have look: "([nextLoad c \<mapsto> m] ++ map_of (pendingLoads c)) (nextLoad c) = Some m"
    using assms(5) by (simp add: map_add_def)
  show ?thesis
    using assms(6)
    by (simp add: run_def s1 createTrackedObjectResume_def look Let_def update_conv')
qed


lemma canSync_sandbox: "canSync c \<Longrightarrow> \<exists>anc. sandboxRoot c = Some anc"
  by (cases "sandboxRoot c") (simp_all add: canSync_def split: if_splits)

text \<open>
  C9, as the code has it. When \<open>canSync\<close> holds and a detected image has an id that is
  not registered, the detection handler sends a Spawn for it, with the local id as sender,
  the pose relative to the sandbox root and the image's index, and it registers nothing:
  the id is still unregistered when the handler returns. If the peer next receives a
  Spawn for that id and index with itself as sender, and the asset load this starts
  completes with an instance (given an asset at the index and a load id that is not in
  use), then the id is registered, owned by the local peer and locally tracked. This is
  one way for the peer to become the owner, not the only one: an ownership request
  naming it as sender is another.
\<close>

theorem detection_sends_spawn:
  assumes can: "canSync c"
    and seen: "img \<in> set images"
    and unknown: "map_of (syncedObjects c) (getImageId c img) = None"
  shows "(\<exists>xs ts t. calls (onImageTrackingUpdate E c (Some images)) = calls c @ xs
            \<and> calculateRelativeTransform E c img = Some t
            \<and> Send MSG_TRACKED_IMAGE_SPAWN
                 (Spawn \<lparr>senderId = getLocalId c, imageId = getImageId c img,
                         timestamp = ts, relativePosition = fst t,
                         relativeRotation = snd t,
                         assetIndex = getAssetIndex c img\<rparr>) \<in> set xs)
       \<and> map_of (syncedObjects (onImageTrackingUpdate E c (Some images))) (getImageId c img) = None
       \<and> (\<forall>m tis tm a p q.
             senderId m = getLocalId c \<and> imageId m = getImageId c img
             \<and> assetIndex m = getAssetIndex c img
             \<and> imageTracking c = Some tis \<and> arrayGet tis (getAssetIndex c img) = Some tm
             \<and> assetObject tm = Some a \<and> map_of (pendingLoads c) (nextLoad c) = None
             \<longrightarrow> (\<exists>d. map_of (syncedObjects
                              (run E (onImageTrackingUpdate E c (Some images))
                                 [ReceiveSpawn m, LoadSettled (nextLoad c) (Instance p q)]))
                            (getImageId c img) = Some d
                        \<and> ownerId d = getLocalId c \<and> isLocallyTracked d))"
proof -
  define now where "now = dateNow c (clockReads c)"
  define b where "b = (updateInterval c \<le> now - lastUpdateTime c)"
  define c1 where "c1 = c\<lparr>clockReads := Suc (clockReads c)\<rparr>"
  define c2 where "c2 = foldl (trackImage E b) c1 images"
  define c3 where "c3 = (if b then c2\<lparr>lastUpdateTime := now\<rparr> else c2)"
  define c4 where "c4 = checkForLostTracking c3 images"
  have nonempty: "images \<noteq> []" using seen by auto
  have handler: "onImageTrackingUpdate E c (Some images) = c4"
    using can nonempty
    by (simp add: onImageTrackingUpdate_def readClock_def Let_def c4_def c3_def c2_def c1_def
          b_def now_def)
  obtain anc where anc: "sandboxRoot c = Some anc" using canSync_sandbox [OF can] by blast
  obtain t where t: "calculateRelativeTransform E c img = Some t"
    by (simp add: calculateRelativeTransform_def anc Let_def)
  have frame1: "syncedObjects c1 = syncedObjects c" "getImageId c1 img = getImageId c img"
    "getLocalId c1 = getLocalId c" "getAssetIndex c1 img = getAssetIndex c img"
    "calculateRelativeTransform E c1 img = calculateRelativeTransform E c img"
    "calls c1 = calls c"
    by (simp_all add: c1_def getImageId_def getLocalId_def getAssetIndex_def
          calculateRelativeTransform_def)
  from trackImage_loop [of E b c1 images] obtain n xs where
    loop0: "foldl (trackImage E b) c1 images = c1\<lparr>clockReads := n, calls := calls c1 @ xs\<rparr>"
    and sp: "\<forall>img\<in>set images. map_of (syncedObjects c1) (getImageId c1 img) = None \<longrightarrow>
        (\<forall>t. calculateRelativeTransform E c1 img = Some t \<longrightarrow>
           (\<exists>ts. Send MSG_TRACKED_IMAGE_SPAWN
                    (Spawn \<lparr>senderId = getLocalId c1, imageId = getImageId c1 img,
                            timestamp = ts, relativePosition = fst t,
                            relativeRotation = snd t,
                            assetIndex = getAssetIndex c1 img\<rparr>) \<in> set xs))"
    by (elim exE conjE) (rule that)
  have loop: "c2 = c1\<lparr>clockReads := n, calls := calls c1 @ xs\<rparr>"
    by (simp add: c2_def loop0)
  have u1: "map_of (syncedObjects c1) (getImageId c1 img) = None"
    by (simp add: frame1 unknown)
  have t1: "calculateRelativeTransform E c1 img = Some t"
    by (simp add: frame1 t)
  have "\<exists>ts. Send MSG_TRACKED_IMAGE_SPAWN
               (Spawn \<lparr>senderId = getLocalId c1, imageId = getImageId c1 img,
                       timestamp = ts, relativePosition = fst t,
                       relativeRotation = snd t,
                       assetIndex = getAssetIndex c1 img\<rparr>) \<in> set xs"
    using bspec [OF sp seen] u1 t1 by blast
  then obtain ts where
    sent: "Send MSG_TRACKED_IMAGE_SPAWN
             (Spawn \<lparr>senderId = getLocalId c, imageId = getImageId c img,
                     timestamp = ts, relativePosition = fst t,
                     relativeRotation = snd t,
                     assetIndex = getAssetIndex c img\<rparr>) \<in> set xs"
    unfolding frame1 by (elim exE) (rule that)
  have c3_fields: "calls c3 = calls c @ xs" "syncedObjects c3 = syncedObjects c"
    "imageTracking c3 = imageTracking c" "connectionId c3 = connectionId c"
    "pendingLoads c3 = pendingLoads c" "nextLoad c3 = nextLoad c"
    by (simp_all add: c3_def loop c1_def)
  have sh: "shrinks c3 c4" unfolding c4_def by (rule shrinks_checkForLostTracking)
  then obtain ys where ys: "calls c4 = calls c3 @ ys" unfolding shrinks_def by blast
  have calls4: "calls c4 = calls c @ (xs @ ys)" by (simp add: ys c3_fields)
  have unknown4: "map_of (syncedObjects c4) (getImageId c img) = None"
    using sh unknown unfolding shrinks_def by (simp add: c3_fields)
  have cfg4: "imageTracking c4 = imageTracking c" "getLocalId c4 = getLocalId c"
    "pendingLoads c4 = pendingLoads c" "nextLoad c4 = nextLoad c"
    using sh unfolding shrinks_def by (simp_all add: c3_fields getLocalId_def)
  have A: "\<exists>xs ts t. calls c4 = calls c @ xs
            \<and> calculateRelativeTransform E c img = Some t
            \<and> Send MSG_TRACKED_IMAGE_SPAWN
                 (Spawn \<lparr>senderId = getLocalId c, imageId = getImageId c img,
                         timestamp = ts, relativePosition = fst t,
                         relativeRotation = snd t,
                         assetIndex = getAssetIndex c img\<rparr>) \<in> set xs"
    using calls4 t sent
    by (intro exI [of _ "xs @ ys"] exI [of _ ts] exI [of _ t]) simp
  have C: "\<exists>d. map_of (syncedObjects
                   (run E c4 [ReceiveSpawn m, LoadSettled (nextLoad c) (Instance p q)]))
                 (getImageId c img) = Some d
              \<and> ownerId d = getLocalId c \<and> isLocallyTracked d"
    if m: "senderId m = getLocalId c" "imageId m = getImageId c img"
      "assetIndex m = getAssetIndex c img"
      "imageTracking c = Some tis" "arrayGet tis (getAssetIndex c img) = Some tm"
      "assetObject tm = Some a" "map_of (pendingLoads c) (nextLoad c) = None"
    for m tis tm a p q
  proof -
    have "\<exists>d. map_of (syncedObjects
                   (run E c4 [ReceiveSpawn m, LoadSettled (nextLoad c4) (Instance p q)]))
                 (imageId m) = Some d
              \<and> ownerId d = getLocalId c4 \<and> isLocallyTracked d"
      by (rule own_spawn_registers [where tis = tis and tm = tm and a = a])
         (simp_all add: m cfg4 unknown4)
    then show ?thesis by (simp add: cfg4 m)
  qed
  show ?thesis
    unfolding handler using A unknown4 C by blast
qed


theorem detection_sends_spawn_witness:
  "canSync peerA
   \<and> map_of (syncedObjects peerA) (getImageId peerA seenImage) = None
   \<and> getImageId peerA seenImage = ''tracked_image_0''
   \<and> map_of (syncedObjects (onImageTrackingUpdate three peerA (Some [seenImage])))
        ''tracked_image_0'' = None
   \<and> (\<exists>d. map_of (syncedObjects
                   (run three (onImageTrackingUpdate three peerA (Some [seenImage]))
                      [ReceiveSpawn (spawnOf ''A'' 1001 (vec 1 2 3)),
                       LoadSettled 0 (Instance (vec 0 0 0) identityQuaternion)]))
                 ''tracked_image_0'' = Some d
            \<and> ownerId d = ''A'' \<and> isLocallyTracked d)"
proof -
  have img: "getImageId peerA seenImage = ''tracked_image_0''" "getAssetIndex peerA seenImage = 0"
    using getImageId_seenImage [of peerA] by (simp_all add: peerA_sel)
  have can: "canSync peerA" by (simp add: canSync_def peerA_def)
  have seen: "seenImage \<in> set [seenImage]" by simp
  have unknown: "map_of (syncedObjects peerA) (getImageId peerA seenImage) = None"
    by (simp add: peerA_sel)
  note T = detection_sends_spawn [OF can seen unknown, of three]
  have registered: "map_of (syncedObjects (onImageTrackingUpdate three peerA (Some [seenImage])))
        (getImageId peerA seenImage) = None"
    using T by (elim conjE)
  have own: "senderId (spawnOf ''A'' 1001 (vec 1 2 3)) = getLocalId peerA
             \<and> imageId (spawnOf ''A'' 1001 (vec 1 2 3)) = getImageId peerA seenImage
             \<and> assetIndex (spawnOf ''A'' 1001 (vec 1 2 3)) = getAssetIndex peerA seenImage
             \<and> imageTracking peerA = Some [\<lparr>modelRef = 7, assetObject = Some 0\<rparr>]
             \<and> arrayGet [\<lparr>modelRef = 7, assetObject = Some 0\<rparr>] (getAssetIndex peerA seenImage)
                 = Some \<lparr>modelRef = 7, assetObject = Some 0\<rparr>
             \<and> assetObject \<lparr>modelRef = 7, assetObject = Some 0\<rparr> = Some 0
             \<and> map_of (pendingLoads peerA) (nextLoad peerA) = None"
    by (simp add: spawnOf_sel peerA_sel img arrayGet_def)
  have "\<exists>d. map_of (syncedObjects
                   (run three (onImageTrackingUpdate three peerA (Some [seenImage]))
                      [ReceiveSpawn (spawnOf ''A'' 1001 (vec 1 2 3)),
                       LoadSettled (nextLoad peerA) (Instance (vec 0 0 0) identityQuaternion)]))
                 (getImageId peerA seenImage) = Some d
            \<and> ownerId d = getLocalId peerA \<and> isLocallyTracked d"
    using T own by blast
  then show ?thesis
    using can unknown registered by (simp add: img peerA_sel)
qed

text \<open>
  C9 as claimed (after the detection handler the registry holds a record for the id,
  owned by the local peer and locally tracked) fails at the peer \<open>A\<close> with an empty
  registry: the handler reads the clock twice, sends the Spawn, and the registry is
  still empty.
\<close>

theorem detection_registers_nothing:
  "canSync peerA
   \<and> map_of (syncedObjects peerA) (getImageId peerA seenImage) = None
   \<and> onImageTrackingUpdate three peerA (Some [seenImage]) =
       peerA\<lparr>clockReads := 2, lastUpdateTime := 1000,
             calls := [Send MSG_TRACKED_IMAGE_SPAWN
                         (Spawn \<lparr>senderId = ''A'', imageId = ''tracked_image_0'',
                                 timestamp = 1001, relativePosition = vec 1 2 3,
                                 relativeRotation = identityQuaternion, assetIndex = 0\<rparr>)]\<rparr>
   \<and> syncedObjects (onImageTrackingUpdate three peerA (Some [seenImage])) = []"
proof -
  have img: "getImageId peerA seenImage = ''tracked_image_0''" "getAssetIndex peerA seenImage = 0"
    using getImageId_seenImage [of peerA] by (simp_all add: peerA_sel)
  have can: "canSync peerA" by (simp add: canSync_def peerA_def)
  have run: "onImageTrackingUpdate three peerA (Some [seenImage]) =
       peerA\<lparr>clockReads := 2, lastUpdateTime := 1000,
             calls := [Send MSG_TRACKED_IMAGE_SPAWN
                         (Spawn \<lparr>senderId = ''A'', imageId = ''tracked_image_0'',
                                 timestamp = 1001, relativePosition = vec 1 2 3,
                                 relativeRotation = identityQuaternion, assetIndex = 0\<rparr>)]\<rparr>"
    apply (simp add: onImageTrackingUpdate_def canSync_def readClock_def Let_def trackImage_def
          getImageId_seenImage calculateRelativeTransform_peerA sendSpawnMessage_def
          checkForLostTracking_def peerA_def getLocalId_def)
    done
  show ?thesis
    using can run by (simp add: img peerA_sel)
qed

section \<open>Further properties\<close>

subsection \<open>Which events keep locally tracked entities owned\<close>

lemma foldl_invariant:
  assumes "\<And>c x. P c \<Longrightarrow> P (f c x)" and "P c"
  shows "P (foldl f c xs)"
  using assms(2) by (induction xs arbitrary: c) (simp_all add: assms(1))

lemma owned_same:
  "syncedObjects c' = syncedObjects c \<Longrightarrow> connectionId c' = connectionId c \<Longrightarrow>
   ownedWhenTracked c \<Longrightarrow> ownedWhenTracked c'"
  by (simp add: ownedWhenTracked_def getLocalId_def)

lemma owned_sends:
  "ownedWhenTracked c \<Longrightarrow> ownedWhenTracked (sendSpawnMessage c i a t)"
  "ownedWhenTracked c \<Longrightarrow> ownedWhenTracked (sendTransformMessage c i t)"
  "ownedWhenTracked c \<Longrightarrow> ownedWhenTracked (sendDespawnMessage c i)"
  "ownedWhenTracked c \<Longrightarrow> ownedWhenTracked (requestOwnership c i)"
  "ownedWhenTracked c \<Longrightarrow> ownedWhenTracked (releaseOwnership c i)"
  by (simp_all add: ownedWhenTracked_def getLocalId_def sendSpawnMessage_def
        sendTransformMessage_def sendDespawnMessage_def requestOwnership_def
        releaseOwnership_def readClock_def)

lemma owned_removeTrackedObject:
  "ownedWhenTracked c \<Longrightarrow> ownedWhenTracked (removeTrackedObject c k)"
  by (auto simp add: ownedWhenTracked_def getLocalId_def removeTrackedObject_def delete_conv'
        split: option.splits if_splits)

lemma owned_createTrackedObject:
  "ownedWhenTracked c \<Longrightarrow> ownedWhenTracked (createTrackedObject c m)"
  by (rule owned_same [of _ c]) (simp_all add: createTrackedObject_def split: option.splits)

lemma owned_resume:
  "ownedWhenTracked c \<Longrightarrow> ownedWhenTracked (createTrackedObjectResume E c k outcome)"
  by (auto simp add: ownedWhenTracked_def createTrackedObjectResume_def Let_def update_conv'
        getLocalId_def split: option.splits loadOutcome.splits if_splits)

lemma owned_update:
  assumes "ownedWhenTracked c"
    and "isLocallyTracked d1 \<longrightarrow> ownerId d1 = getLocalId c"
  shows "ownedWhenTracked (c\<lparr>syncedObjects := AList.update k d1 (syncedObjects c)\<rparr>)"
  using assms by (auto simp add: ownedWhenTracked_def update_conv' getLocalId_def)

lemma owned_onReceiveSpawn:
  "ownedWhenTracked c \<Longrightarrow> ownedWhenTracked (onReceiveSpawn c m)"
  by (cases "map_of (syncedObjects c) (imageId m)")
     (simp_all add: onReceiveSpawn_def owned_createTrackedObject owned_update)

lemma owned_onReceiveTransform:
  assumes "ownedWhenTracked c"
  shows "ownedWhenTracked (onReceiveTransform E c m)"
proof (cases "map_of (syncedObjects c) (imageId m)")
  case None
  then show ?thesis using assms by (simp add: onReceiveTransform_def)
next
  case (Some d)
  then have "isLocallyTracked d \<longrightarrow> ownerId d = getLocalId c"
    using assms by (simp add: ownedWhenTracked_def)
  then show ?thesis
    using assms Some by (simp add: onReceiveTransform_def owned_update)
qed

lemma owned_onReceiveDespawn:
  "ownedWhenTracked c \<Longrightarrow> ownedWhenTracked (onReceiveDespawn c m)"
  by (simp add: onReceiveDespawn_def owned_removeTrackedObject split: option.splits)

lemma owned_onReceiveOwnership:
  assumes "ownedWhenTracked c"
    and "action m = Release \<longrightarrow> senderId m \<noteq> getLocalId c"
  shows "ownedWhenTracked (onReceiveOwnership c m)"
proof (cases "map_of (syncedObjects c) (imageId m)")
  case None
  then show ?thesis using assms by (simp add: onReceiveOwnership_def)
next
  case (Some d)
  have inv: "isLocallyTracked d \<longrightarrow> ownerId d = getLocalId c"
    using assms(1) Some by (simp add: ownedWhenTracked_def)
  show ?thesis
  proof (cases "action m")
    case Request
    then show ?thesis
      using assms(1) Some by (simp add: onReceiveOwnership_def owned_update)
  next
    case Release
    then have "senderId m \<noteq> getLocalId c" using assms(2) by simp
    then have "ownerId d = senderId m \<longrightarrow> \<not> isLocallyTracked d" using inv by auto
    then show ?thesis
      using assms(1) Some Release by (simp add: onReceiveOwnership_def owned_update)
  qed
qed

lemma owned_onReceiveStateRequest:
  assumes "ownedWhenTracked c"
  shows "ownedWhenTracked (onReceiveStateRequest E c r)"
proof (cases "r = getLocalId c")
  case True
  then show ?thesis using assms by (simp add: onReceiveStateRequest_def)
next
  case False
  have "ownedWhenTracked (foldl f c (syncedObjects c))"
    if f: "\<And>c x. syncedObjects (f c x) = syncedObjects c \<and> connectionId (f c x) = connectionId c"
    for f :: "component \<Rightarrow> string \<times> syncedTrackedObject \<Rightarrow> component"
    by (rule foldl_invariant [where P = ownedWhenTracked])
       (simp_all add: f assms owned_same [of "f _ _"])
  then show ?thesis
    unfolding onReceiveStateRequest_def
    by (simp add: False readClock_def split_beta split: option.splits)
qed

lemma owned_onReceiveStateResponse:
  "ownedWhenTracked c \<Longrightarrow> ownedWhenTracked (onReceiveStateResponse c m)"
  by (simp add: onReceiveStateResponse_def owned_createTrackedObject)

lemma owned_onUserJoined:
  "ownedWhenTracked c \<Longrightarrow> ownedWhenTracked (onUserJoined c u)"
  by (rule owned_same [of _ c]) (simp_all add: onUserJoined_def)

lemma owned_onUserLeft:
  "ownedWhenTracked c \<Longrightarrow> ownedWhenTracked (onUserLeft c u)"
  unfolding onUserLeft_def
  by (rule foldl_invariant [where P = ownedWhenTracked])
     (simp_all add: owned_removeTrackedObject split_beta)

lemma owned_checkForLostTracking:
  "ownedWhenTracked c \<Longrightarrow> ownedWhenTracked (checkForLostTracking c images)"
  unfolding checkForLostTracking_def Let_def
  by (rule foldl_invariant [where P = ownedWhenTracked])
     (simp_all add: owned_removeTrackedObject owned_sends split_beta)

lemma owned_trackImage:
  "ownedWhenTracked c \<Longrightarrow> ownedWhenTracked (trackImage E b c img)"
  by (simp add: trackImage_def Let_def owned_sends split: option.splits)

lemma owned_onImageTrackingUpdate:
  assumes "ownedWhenTracked c"
  shows "ownedWhenTracked (onImageTrackingUpdate E c detail)"
proof -
  have clock: "ownedWhenTracked (snd (readClock c))"
    using assms by (rule owned_same [rotated 2]) (simp_all add: readClock_def)
  have loop: "ownedWhenTracked (foldl (trackImage E b) (snd (readClock c)) images)" for b images
    by (rule foldl_invariant [where P = ownedWhenTracked]) (simp_all add: owned_trackImage clock)
  have stamp: "ownedWhenTracked (if b then (foldl (trackImage E b) (snd (readClock c)) images)\<lparr>lastUpdateTime := t\<rparr>
                      else foldl (trackImage E b) (snd (readClock c)) images)" for b t images
    using loop [of b images] by (auto intro: owned_same [rotated 2])
  have body: "ownedWhenTracked (checkForLostTracking
                     (if b then (foldl (trackImage E b) (snd (readClock c)) images)\<lparr>lastUpdateTime := t\<rparr>
                      else foldl (trackImage E b) (snd (readClock c)) images) images)"
    for b t images
    using stamp by (rule owned_checkForLostTracking)
  show ?thesis
  proof (cases "canSync c")
    case False
    then show ?thesis using assms by (simp add: onImageTrackingUpdate_def)
  next
    case True
    show ?thesis
    proof (cases detail)
      case None
      then show ?thesis using assms by (simp add: onImageTrackingUpdate_def)
    next
      case (Some images)
      show ?thesis
      proof (cases "images = []")
        case True
        then show ?thesis using assms by (simp add: onImageTrackingUpdate_def Some)
      next
        case False
        then show ?thesis
          using body
          by (simp add: onImageTrackingUpdate_def Some \<open>canSync c\<close> Let_def split_beta)
      qed
    qed
  qed
qed

text \<open>
  Every event keeps the invariant that a locally tracked entity is owned by the local
  peer, except an Ownership release whose sender is the local peer itself (the case of
  C3).
\<close>

theorem only_self_release_breaks_ownership:
  assumes "ownedWhenTracked c"
    and "\<forall>m. e = ReceiveOwnership m \<and> action m = Release \<longrightarrow> senderId m \<noteq> getLocalId c"
  shows "ownedWhenTracked (step E c e)"
proof (cases e)
  case (ReceiveOwnership m)
  then show ?thesis
    using assms by (simp add: owned_onReceiveOwnership)
qed (simp_all add: assms(1) owned_onImageTrackingUpdate owned_onReceiveSpawn
       owned_onReceiveTransform owned_onReceiveDespawn owned_onReceiveStateRequest
       owned_onReceiveStateResponse owned_onUserJoined owned_onUserLeft owned_resume)


lemma ownedWhenTracked_peerA_owns: "ownedWhenTracked peerA_owns"
  by (simp add: ownedWhenTracked_def peerA_owns_sel entityOfA_sel)

theorem only_self_release_breaks_ownership_witness:
  "ownedWhenTracked peerA_owns
   \<and> senderId (ownershipOf ''B'' 5 Release) \<noteq> getLocalId peerA_owns
   \<and> ownedWhenTracked (step three peerA_owns (ReceiveOwnership (ownershipOf ''B'' 5 Release)))
   \<and> ownedWhenTracked (step three peerA_owns (ReceiveOwnership (ownershipOf ''B'' 5 Request)))"
  using only_self_release_breaks_ownership
          [OF ownedWhenTracked_peerA_owns, of "ReceiveOwnership (ownershipOf ''B'' 5 Release)" three]
        only_self_release_breaks_ownership
          [OF ownedWhenTracked_peerA_owns, of "ReceiveOwnership (ownershipOf ''B'' 5 Request)" three]
        ownedWhenTracked_peerA_owns
  by (simp add: ownershipOf_sel peerA_owns_sel)

subsection \<open>Stale releases and repeated state responses\<close>

text \<open>
  An Ownership release from a peer that is not the stored owner changes nothing.
\<close>

theorem stale_release_ignored:
  assumes "map_of (syncedObjects c) (imageId m) = Some d"
    and "action m = Release"
    and "ownerId d \<noteq> senderId m"
  shows "onReceiveOwnership c m = c"
  using assms by (simp add: onReceiveOwnership_def)

theorem stale_release_ignored_witness:
  "map_of (syncedObjects peerA_seesB) (imageId (ownershipOf ''C'' 200 Release)) = Some entityOfB
   \<and> action (ownershipOf ''C'' 200 Release) = Release
   \<and> ownerId entityOfB \<noteq> senderId (ownershipOf ''C'' 200 Release)
   \<and> onReceiveOwnership peerA_seesB (ownershipOf ''C'' 200 Release) = peerA_seesB"
  using stale_release_ignored [of peerA_seesB "ownershipOf ''C'' 200 Release" entityOfB]
  by (simp add: ownershipOf_sel peerA_seesB_sel entityOfB_sel)

text \<open>
  A state response for an id that is already registered changes nothing, whoever it
  names as owner.
\<close>

theorem stateResponse_for_known_id_ignored:
  assumes "map_of (syncedObjects c) (sr_imageId m) = Some d"
  shows "onReceiveStateResponse c m = c"
  using assms by (simp add: onReceiveStateResponse_def)

theorem stateResponse_for_known_id_ignored_witness:
  "map_of (syncedObjects peerA_seesB) (sr_imageId snapshotOfB) = Some entityOfB
   \<and> onReceiveStateResponse peerA_seesB snapshotOfB = peerA_seesB"
  using stateResponse_for_known_id_ignored [of peerA_seesB snapshotOfB entityOfB]
  by (simp add: snapshotOfB_def peerA_seesB_sel)

subsection \<open>A peer leaves\<close>

lemma removeTrackedObject_registry:
  "syncedObjects (removeTrackedObject c k) = AList.delete k (syncedObjects c)"
proof (cases "map_of (syncedObjects c) k")
  case None
  then have "k \<notin> fst ` set (syncedObjects c)" by (simp add: map_of_eq_None_iff)
  then show ?thesis using None by (simp add: removeTrackedObject_def)
next
  case (Some d)
  then show ?thesis by (simp add: removeTrackedObject_def)
qed

lemma onUserLeft_loop:
  "syncedObjects
     (foldl (\<lambda>c (i, d). if ownerId d = u then removeTrackedObject c i else c) c xs)
   = filter (\<lambda>(i, d). i \<notin> fst ` {x \<in> set xs. ownerId (snd x) = u}) (syncedObjects c)"
proof (induction xs arbitrary: c)
  case Nil
  show ?case by simp
next
  case (Cons x xs)
  obtain i d where x: "x = (i, d)" by (cases x)
  show ?case
  proof (cases "ownerId d = u")
    case True
    have sets: "{y \<in> set (x # xs). ownerId (snd y) = u}
                  = insert x {y \<in> set xs. ownerId (snd y) = u}"
      using True x by auto
    have "syncedObjects
            (foldl (\<lambda>c (i, d). if ownerId d = u then removeTrackedObject c i else c) c (x # xs))
          = filter (\<lambda>(k, e). k \<notin> fst ` {y \<in> set xs. ownerId (snd y) = u})
              (syncedObjects (removeTrackedObject c i))"
      using True by (simp add: x Cons.IH)
    also have "\<dots> = filter (\<lambda>(k, e). k \<notin> fst ` {y \<in> set xs. ownerId (snd y) = u})
                        (filter (\<lambda>(k, e). i \<noteq> k) (syncedObjects c))"
      by (simp add: removeTrackedObject_registry AList.delete_eq)
    also have "\<dots> = filter (\<lambda>(k, e). k \<notin> fst ` {y \<in> set (x # xs). ownerId (snd y) = u})
                        (syncedObjects c)"
      unfolding sets filter_filter by (rule filter_cong) (auto simp add: x)
    finally show ?thesis .
  next
    case False
    have "{y \<in> set (x # xs). ownerId (snd y) = u} = {y \<in> set xs. ownerId (snd y) = u}"
      using False x by auto
    then show ?thesis
      using False by (simp add: x Cons.IH)
  qed
qed

text \<open>
  When a peer leaves, exactly the entities it owns are removed from the registry; the
  others stay, in their order. (The keys of a \<^verbatim>\<open>Map\<close> are distinct.)
\<close>

theorem onUserLeft_removes_owned:
  assumes "distinct (map fst (syncedObjects c))"
  shows "syncedObjects (onUserLeft c u) = filter (\<lambda>(i, d). ownerId d \<noteq> u) (syncedObjects c)"
proof -
  have "(i \<notin> fst ` {x \<in> set (syncedObjects c). ownerId (snd x) = u}) = (ownerId d \<noteq> u)"
    if "(i, d) \<in> set (syncedObjects c)" for i d
  proof
    assume "i \<notin> fst ` {x \<in> set (syncedObjects c). ownerId (snd x) = u}"
    then show "ownerId d \<noteq> u" using that by force
  next
    assume n: "ownerId d \<noteq> u"
    show "i \<notin> fst ` {x \<in> set (syncedObjects c). ownerId (snd x) = u}"
    proof
      assume "i \<in> fst ` {x \<in> set (syncedObjects c). ownerId (snd x) = u}"
      then obtain d' where d': "(i, d') \<in> set (syncedObjects c)" "ownerId d' = u" by force
      then have "d' = d" using assms that by (meson eq_key_imp_eq_value)
      then show False using d' n by simp
    qed
  qed
  then have "filter (\<lambda>(i, d). i \<notin> fst ` {x \<in> set (syncedObjects c). ownerId (snd x) = u})
               (syncedObjects c)
             = filter (\<lambda>(i, d). ownerId d \<noteq> u) (syncedObjects c)"
    by (intro filter_cong) auto
  then show ?thesis
    by (simp add: onUserLeft_def onUserLeft_loop)
qed

theorem onUserLeft_removes_owned_witness:
  "distinct (map fst (syncedObjects peerA_seesB))
   \<and> syncedObjects (onUserLeft peerA_seesB ''B'') = []
   \<and> syncedObjects (onUserLeft peerA_seesB ''C'') = [(''tracked_image_0'', entityOfB)]"
  using onUserLeft_removes_owned [of peerA_seesB "''B''"]
        onUserLeft_removes_owned [of peerA_seesB "''C''"]
  by (simp add: peerA_seesB_sel entityOfB_sel)

section \<open>The relative pose and back, over the reals\<close>







end
